theory Spec2Isabelle
  imports Main "HOL-Library.List_Lexorder" "HOL-Library.Multiset"
begin

section \<open>Text\<close>

text \<open>
  A Python string is a sequence of Unicode code points. \<open>ascii\<close> writes the string
  whose characters are the given ASCII ones; a character outside ASCII is written by
  its code point.

  The source classifies characters with the Unicode tables of the Python runtime:
  \<^verbatim>\<open>str.strip()\<close> and the class \<^verbatim>\<open>\s\<close> remove and match what the runtime calls white
  space, \<^verbatim>\<open>\D\<close> matches what it does not call a decimal digit, and \<^verbatim>\<open>str.lower()\<close>
  maps a string to its lower-case form (not character by character in general). These
  tables are not part of the repository: they are the fields \<open>isspace\<close>, \<open>isdecimal\<close> and
  \<open>lower\<close> of the surroundings below, and every function that needs one takes it as an
  argument.
\<close>

type_synonym codepoint = nat
type_synonym str = "codepoint list"

definition ascii :: "string \<Rightarrow> str" where
  "ascii s = map of_char s"

abbreviation (input) LF :: codepoint where "LF \<equiv> 10"
abbreviation (input) COMMA :: codepoint where "COMMA \<equiv> 44"
abbreviation (input) DOT :: codepoint where "DOT \<equiv> 46"
abbreviation (input) COLON :: codepoint where "COLON \<equiv> 58"
abbreviation (input) AT :: codepoint where "AT \<equiv> 64"

text \<open>\<^verbatim>\<open>s.strip()\<close>, given the white space of the runtime.\<close>

definition strip :: "(codepoint \<Rightarrow> bool) \<Rightarrow> str \<Rightarrow> str" where
  "strip sp s = rev (dropWhile sp (rev (dropWhile sp s)))"

text \<open>\<^verbatim>\<open>s.split(sep)\<close> for a one-character separator: never an empty list.\<close>

fun split_on :: "codepoint \<Rightarrow> str \<Rightarrow> str list" where
  "split_on sep [] = [[]]"
| "split_on sep (c # cs) =
     (if c = sep then [] # split_on sep cs
      else (case split_on sep cs of
              [] \<Rightarrow> [[c]]
            | w # ws \<Rightarrow> (c # w) # ws))"

text \<open>\<^verbatim>\<open>sep.join(xs)\<close>.\<close>

fun join :: "str \<Rightarrow> str list \<Rightarrow> str" where
  "join sep [] = []"
| "join sep [x] = x"
| "join sep (x # y # ys) = x @ sep @ join sep (y # ys)"

text \<open>The decimal rendering of a non-negative integer inside an f-string.\<close>

fun str_of_nat :: "nat \<Rightarrow> str" where
  "str_of_nat n =
     (if n < 10 then [48 + n]
      else str_of_nat (n div 10) @ [48 + n mod 10])"

text \<open>
  The fragment of regular expressions the source uses, matched the way
  \<^verbatim>\<open>re.match(r'^...$', s)\<close> does: anchored at the start, items in sequence, a class
  followed by \<^verbatim>\<open>+\<close> taking one or more characters (every split is tried), and the
  final \<^verbatim>\<open>$\<close> accepting the end of the string or a single line feed before it.
\<close>

datatype re_item = Lit codepoint | Plus "codepoint \<Rightarrow> bool"

fun re_match :: "re_item list \<Rightarrow> str \<Rightarrow> bool" where
  "re_match [] s = (s = [] \<or> s = [LF])"
| "re_match (Lit c # r) [] = False"
| "re_match (Lit c # r) (x # xs) = (x = c \<and> re_match r xs)"
| "re_match (Plus P # r) [] = False"
| "re_match (Plus P # r) (x # xs) = (P x \<and> (re_match (Plus P # r) xs \<or> re_match r xs))"

text \<open>The class \<^verbatim>\<open>[^\s@]\<close> and the pattern \<^verbatim>\<open>^[^\s@]+@[^\s@]+\.[^\s@]+$\<close>.\<close>

definition not_space_at :: "(codepoint \<Rightarrow> bool) \<Rightarrow> codepoint \<Rightarrow> bool" where
  "not_space_at sp c = (\<not> sp c \<and> c \<noteq> AT)"

definition email_regex :: "(codepoint \<Rightarrow> bool) \<Rightarrow> re_item list" where
  "email_regex sp =
     [Plus (not_space_at sp), Lit AT, Plus (not_space_at sp), Lit DOT, Plus (not_space_at sp)]"


section \<open>Data model (main/models.py)\<close>

text \<open>
  A point in time is an integer number of seconds in the site's time zone; the calendar
  date of a timestamp (\<^verbatim>\<open>timestamp__date\<close>) is its day number. A date is the day number
  Python calls the ordinal: 1 is 0001-01-01 and 3652059 is 9999-12-31, the last date the
  \<^verbatim>\<open>date\<close> type holds.
\<close>

type_synonym datetime = int
type_synonym date = int

definition date_of :: "datetime \<Rightarrow> date" where
  "date_of t = t div 86400"

definition date_min :: date where
  "date_min = 1"

definition date_max :: date where
  "date_max = 3652059"

datatype py_error =
    ValueError str
  | OverflowError
  | RequestException
  | JSONDecodeError
  | TypeError
  | KeyError str
  | IntegrityError
  | DatabaseError

text \<open>\<^verbatim>\<open>d + timedelta(days=k)\<close>: raises when the result leaves the range of dates.\<close>

definition date_add_days :: "date \<Rightarrow> int \<Rightarrow> py_error + date" where
  "date_add_days d k =
     (if date_min \<le> d + k \<and> d + k \<le> date_max then Inr (d + k) else Inl OverflowError)"

record upload =
  upload_name :: str
  upload_size :: nat

text \<open>A contact row; \<open>contact_id\<close> is \<open>None\<close> until the store has assigned one.\<close>

record contact =
  contact_id :: "nat option"
  name :: str
  whatsapp :: str
  email :: str
  project_description :: str
  attachment :: "upload option"
  created_at :: datetime
  is_read :: bool
  contact_notes :: str

datatype device = Desktop | Mobile | Tablet | Unknown

record page_view =
  ip_address :: str
  user_agent :: str
  referer :: str
  page_url :: str
  country :: str
  city :: str
  region :: str
  device_type :: device
  browser :: str
  operating_system :: str
  timestamp :: datetime
  session_id :: str
  time_on_page :: nat

record contact_form_settings =
  pk :: "int option"
  email_notifications :: bool
  notification_email :: str
  auto_reply_enabled :: bool
  auto_reply_subject :: str
  auto_reply_message :: str
  max_file_size_mb :: nat
  allowed_file_types :: str
  settings_created_at :: datetime
  settings_updated_at :: datetime

record site_statistics =
  stats_date :: date
  total_views :: nat
  unique_visitors :: nat
  contact_submissions :: nat
  top_country_1 :: str
  top_country_1_count :: nat
  top_country_2 :: str
  top_country_2_count :: nat
  top_country_3 :: str
  top_country_3_count :: nat
  desktop_views :: nat
  mobile_views :: nat
  tablet_views :: nat
  stats_created_at :: datetime
  stats_updated_at :: datetime

text \<open>
  The persistent store: one list of rows per table, in insertion order. The statistics
  table is keyed by its unique \<^verbatim>\<open>date\<close> column, the only way the code reaches a row
  of it.
\<close>

record db =
  contacts :: "contact list"
  page_views :: "page_view list"
  settings_table :: "contact_form_settings list"
  statistics :: "date \<rightharpoonup> site_statistics"

section \<open>What the program gets from outside\<close>

datatype send_result = Delivered | Raised

text \<open>
  A value as \<^verbatim>\<open>response.json()\<close> returns it: \<^verbatim>\<open>None\<close>, a truth value, an integer, a
  floating-point number (kept as its literal), a string, a list, or a dictionary given
  by its key/value pairs in the order of the document (a repeated key keeps its last
  value).
\<close>

datatype json =
    JNull
  | JBool bool
  | JInt int
  | JFloat str
  | JString str
  | JArray "json list"
  | JObject "(str \<times> json) list"

text \<open>
  The answer of the geolocation service to one request. \<open>RequestFailed\<close> is any
  exception of \<^verbatim>\<open>requests.get\<close> (a timeout among them). A response carries its
  status code and its body: \<open>NotJson\<close> when \<^verbatim>\<open>response.json()\<close> raises, the value read
  otherwise.
\<close>

datatype payload = NotJson | Json json

datatype http_result = RequestFailed | Response int payload

text \<open>What the \<^verbatim>\<open>user_agents\<close> library reports for a user-agent string.\<close>

record parsed_user_agent =
  is_mobile :: bool
  is_tablet :: bool
  is_pc :: bool
  browser_family :: str
  browser_version_string :: str
  os_family :: str
  os_version_string :: str

text \<open>
  \<open>now\<close> is the clock. \<open>admin_mail\<close> and \<open>auto_reply\<close> say whether the body of the
  corresponding \<^verbatim>\<open>try\<close> block of the contact form raises. \<open>geo_lookup\<close> is the
  geolocation service, asked for the text that follows \<^verbatim>\<open>/json/\<close> in the URL; \<open>parse\<close>
  is the user-agent library. \<open>group_order\<close> is the order in which the database emits the
  groups of a \<^verbatim>\<open>GROUP BY\<close> over the given column values: SQL leaves it, and with it the
  order of groups that tie under \<^verbatim>\<open>ORDER BY\<close>, to the engine.

  \<open>isspace\<close>, \<open>isdecimal\<close> and \<open>lower\<close> are the Unicode tables of the runtime (white
  space, decimal digits, \<^verbatim>\<open>str.lower\<close>); \<open>py_str\<close> is \<^verbatim>\<open>str()\<close> on a value that is
  neither a string nor \<^verbatim>\<open>None\<close>; \<open>clean_ipv6\<close> is the framework's
  \<^verbatim>\<open>clean_ipv6_address\<close>, \<open>None\<close> where it raises \<^verbatim>\<open>ValidationError\<close>.

  \<open>insert_contact\<close> and \<open>insert_page_view\<close> are the store's answers to the insert of
  a row into the table as it stands. The contact table either raises (a value too long
  for its column on a backend that enforces lengths, a lost connection) or stores the
  row under the id it returns: ids come from the table's sequence, the code never
  chooses one. The page-view table either raises or stores the row.
\<close>

record env =
  now :: datetime
  admin_mail :: send_result
  auto_reply :: send_result
  geo_lookup :: "str \<Rightarrow> http_result"
  parse :: "str \<Rightarrow> parsed_user_agent"
  group_order :: "str list \<Rightarrow> str list"
  isspace :: "codepoint \<Rightarrow> bool"
  isdecimal :: "codepoint \<Rightarrow> bool"
  lower :: "str \<Rightarrow> str"
  py_str :: "json \<Rightarrow> str"
  clean_ipv6 :: "str \<Rightarrow> str option"
  insert_contact :: "contact list \<Rightarrow> contact \<Rightarrow> py_error + nat"
  insert_page_view :: "page_view list \<Rightarrow> page_view \<Rightarrow> py_error option"

text \<open>
  A request: its method, the form fields, the uploaded file, and the entries of
  \<^verbatim>\<open>request.META\<close> and of the session the code reads (\<open>None\<close> for an absent one).
\<close>

record request =
  request_method :: str
  POST :: "str \<rightharpoonup> str"
  FILES_attachment :: "upload option"
  X_Requested_With :: "str option"
  HTTP_X_FORWARDED_FOR :: "str option"
  REMOTE_ADDR :: "str option"
  HTTP_USER_AGENT :: "str option"
  HTTP_REFERER :: "str option"
  session_key :: "str option"


section \<open>The settings singleton (main/models.py, ContactFormSettings)\<close>

definition default_auto_reply_message :: str where
  "default_auto_reply_message =
     ascii ''Ol'' @ [0xE1] @ ascii '' {name},'' @ [LF, LF] @
     ascii ''Obrigado por entrar em contato conosco!'' @ [LF, LF] @
     ascii ''Recebemos sua mensagem e retornaremos em breve. Nosso tempo de resposta '' @
     [0xE9] @ ascii '' de at'' @ [0xE9] @ ascii '' 2 horas durante o hor'' @
     [0xE1] @ ascii ''rio comercial.'' @ [LF, LF] @
     ascii ''Detalhes da sua mensagem:'' @ [LF] @
     ascii ''- Nome: {name}'' @ [LF] @
     ascii ''- Email: {email}'' @ [LF] @
     ascii ''- WhatsApp: {whatsapp}'' @ [LF] @
     ascii ''- Data: {date}'' @ [LF, LF] @
     ascii ''Atenciosamente,'' @ [LF] @ ascii ''Equipe DevPro''"

text \<open>A fresh instance as the constructor builds it: the field defaults, the given key.\<close>

definition new_settings :: "int option \<Rightarrow> contact_form_settings" where
  "new_settings k =
     \<lparr>pk = k,
      email_notifications = True,
      notification_email = ascii ''admin@example.com'',
      auto_reply_enabled = True,
      auto_reply_subject = ascii ''Obrigado pelo seu contato!'',
      auto_reply_message = default_auto_reply_message,
      max_file_size_mb = 10,
      allowed_file_types = ascii ''pdf,doc,docx,txt'',
      settings_created_at = 0,
      settings_updated_at = 0\<rparr>"

definition fresh_pk :: "contact_form_settings list \<Rightarrow> int" where
  "fresh_pk rows = 1 + fold max (map (\<lambda>r. case pk r of None \<Rightarrow> 0 | Some k \<Rightarrow> k) rows) 0"

text \<open>
  \<^verbatim>\<open>super().save()\<close>, the framework's \<^verbatim>\<open>Model.save\<close> on this table: an instance
  without a key is inserted under a fresh one; an instance with a key replaces the row
  of that key when there is one and is inserted otherwise. The two time fields are set
  as \<^verbatim>\<open>auto_now_add\<close> and \<^verbatim>\<open>auto_now\<close> do.
\<close>

definition model_save ::
  "env \<Rightarrow> contact_form_settings \<Rightarrow> contact_form_settings list \<Rightarrow>
   contact_form_settings \<times> contact_form_settings list" where
  "model_save e s rows =
     (case pk s of
        None \<Rightarrow>
          (let s' = s\<lparr>pk := Some (fresh_pk rows),
                       settings_created_at := now e, settings_updated_at := now e\<rparr>
           in (s', rows @ [s']))
      | Some k \<Rightarrow>
          if list_ex (\<lambda>r. pk r = Some k) rows
          then (let s' = s\<lparr>settings_updated_at := now e\<rparr>
                in (s', map (\<lambda>r. if pk r = Some k then s' else r) rows))
          else (let s' = s\<lparr>settings_created_at := now e, settings_updated_at := now e\<rparr>
                in (s', rows @ [s'])))"

definition msg_only_one :: str where
  "msg_only_one =
     ascii ''Apenas uma configura'' @ [0xE7, 0xE3] @ ascii ''o pode existir''"

text \<open>
  \<^verbatim>\<open>ContactFormSettings.save\<close>. \<^verbatim>\<open>not self.pk\<close> holds for a missing key and for the
  key 0.
\<close>

definition save ::
  "env \<Rightarrow> contact_form_settings \<Rightarrow> db \<Rightarrow> py_error + (contact_form_settings \<times> db)" where
  "save e s d =
     (if (pk s = None \<or> pk s = Some 0) \<and> settings_table d \<noteq> []
      then Inl (ValueError msg_only_one)
      else (let (s', rows) = model_save e s (settings_table d)
            in Inr (s', d\<lparr>settings_table := rows\<rparr>)))"

text \<open>
  \<^verbatim>\<open>ContactFormSettings.get_settings\<close>: \<^verbatim>\<open>get_or_create(pk=1)\<close> returns the row of
  key 1, or builds an instance with that key and saves it.
\<close>

definition get_settings :: "env \<Rightarrow> db \<Rightarrow> py_error + (contact_form_settings \<times> db)" where
  "get_settings e d =
     (case find (\<lambda>r. pk r = Some 1) (settings_table d) of
        Some s \<Rightarrow> Inr (s, d)
      | None \<Rightarrow> save e (new_settings (Some 1)) d)"

section \<open>Contact intake (main/views.py, handle\_contact\_form)\<close>

datatype flash = MsgSuccess str | MsgError str

datatype response = JsonResponse bool str | Redirect str flash

text \<open>
  What the request does besides answering, in the order it happens: the insert of the
  contact row, then each notification whose \<^verbatim>\<open>try\<close> block is entered, with the
  recipient and whether the block ran through or raised (and was caught and printed).
\<close>

datatype effect =
    Persisted nat
  | NotifyAdmin nat str send_result
  | NotifyApplicant nat str send_result

definition msg_method :: str where
  "msg_method = ascii ''M'' @ [0xE9] @ ascii ''todo n'' @ [0xE3] @ ascii ''o permitido''"

definition msg_required :: str where
  "msg_required =
     ascii ''Todos os campos obrigat'' @ [0xF3] @ ascii ''rios devem ser preenchidos''"

definition msg_email :: str where
  "msg_email = ascii ''Email inv'' @ [0xE1] @ ascii ''lido''"

definition msg_whatsapp :: str where
  "msg_whatsapp =
     ascii ''N'' @ [0xFA] @ ascii ''mero de WhatsApp inv'' @ [0xE1] @ ascii ''lido''"

definition msg_too_large :: "nat \<Rightarrow> str" where
  "msg_too_large mb =
     ascii ''Arquivo muito grande. M'' @ [0xE1] @ ascii ''ximo permitido: '' @
     str_of_nat mb @ ascii ''MB''"

definition msg_bad_type :: "str list \<Rightarrow> str" where
  "msg_bad_type allowed_types =
     ascii ''Tipo de arquivo n'' @ [0xE3] @ ascii ''o permitido. Tipos aceitos: '' @
     join (ascii '', '') allowed_types"

definition msg_success :: str where
  "msg_success = ascii ''Mensagem enviada com sucesso! Entraremos em contato em breve.''"

definition msg_internal :: str where
  "msg_internal = ascii ''Erro interno do servidor. Tente novamente.''"

definition msg_retry :: str where
  "msg_retry = ascii ''Erro ao enviar mensagem. Tente novamente.''"

text \<open>\<^verbatim>\<open>request.POST.get(key, '')\<close>.\<close>

definition post_get :: "request \<Rightarrow> str \<Rightarrow> str" where
  "post_get req key = (case POST req key of None \<Rightarrow> [] | Some v \<Rightarrow> v)"

text \<open>\<^verbatim>\<open>if attachment:\<close> - an uploaded file is true when it has a name.\<close>

definition present :: "upload option \<Rightarrow> bool" where
  "present a = (case a of None \<Rightarrow> False | Some f \<Rightarrow> upload_name f \<noteq> [])"

definition allowed_types :: "env \<Rightarrow> contact_form_settings \<Rightarrow> str list" where
  "allowed_types e fs =
     map (\<lambda>ext. lower e (strip (isspace e) ext)) (split_on COMMA (allowed_file_types fs))"

definition file_extension :: "env \<Rightarrow> str \<Rightarrow> str" where
  "file_extension e filename = lower e (last (split_on DOT filename))"

definition is_ajax :: "request \<Rightarrow> bool" where
  "is_ajax req = (X_Requested_With req = Some (ascii ''XMLHttpRequest''))"

text \<open>
  \<^verbatim>\<open>Contact.objects.create\<close>: the instance gets the time of the clock
  (\<^verbatim>\<open>auto_now_add\<close>) and the field defaults and is handed to the store, which raises or
  assigns the id.
\<close>

definition contact_create ::
  "env \<Rightarrow> str \<Rightarrow> str \<Rightarrow> str \<Rightarrow> str \<Rightarrow> upload option \<Rightarrow> db \<Rightarrow> py_error + (contact \<times> db)" where
  "contact_create e n w m p a d =
     (let row = \<lparr>contact_id = None,
                  name = n, whatsapp = w, email = m, project_description = p,
                  attachment = a, created_at = now e, is_read = False, contact_notes = []\<rparr>
      in case insert_contact e (contacts d) row of
           Inl err \<Rightarrow> Inl err
         | Inr k \<Rightarrow>
             (let c = row\<lparr>contact_id := Some k\<rparr>
              in Inr (c, d\<lparr>contacts := contacts d @ [c]\<rparr>)))"

text \<open>The two notification blocks that follow the insert, each under its own condition.\<close>

definition notifications :: "env \<Rightarrow> contact_form_settings \<Rightarrow> nat \<Rightarrow> contact \<Rightarrow> effect list" where
  "notifications e fs k c =
     (if email_notifications fs \<and> notification_email fs \<noteq> []
      then [NotifyAdmin k (notification_email fs) (admin_mail e)] else []) @
     (if auto_reply_enabled fs
      then [NotifyApplicant k (email c) (auto_reply e)] else [])"

text \<open>
  The outer \<^verbatim>\<open>except Exception\<close> of the view: the answer to whatever the body of the
  \<^verbatim>\<open>try\<close> raised outside the two notification blocks.
\<close>

definition internal_error :: "request \<Rightarrow> response" where
  "internal_error req =
     (if is_ajax req then JsonResponse False msg_internal
      else Redirect (ascii ''landing_page'') (MsgError msg_retry))"

definition handle_contact_form :: "env \<Rightarrow> request \<Rightarrow> db \<Rightarrow> response \<times> db \<times> effect list" where
  "handle_contact_form e req d =
     (if request_method req \<noteq> ascii ''POST'' then (JsonResponse False msg_method, d, [])
      else
        let name = strip (isspace e) (post_get req (ascii ''name''));
            whatsapp = strip (isspace e) (post_get req (ascii ''whatsapp''));
            email = strip (isspace e) (post_get req (ascii ''email''));
            project_description = strip (isspace e) (post_get req (ascii ''project_description''));
            attachment = FILES_attachment req
        in
        if \<not> list_all (\<lambda>s. s \<noteq> []) [name, whatsapp, email, project_description]
        then (JsonResponse False msg_required, d, [])
        else if \<not> re_match (email_regex (isspace e)) email
        then (JsonResponse False msg_email, d, [])
        else
          let whatsapp_clean = filter (isdecimal e) whatsapp in
          if length whatsapp_clean < 10 \<or> length whatsapp_clean > 11
          then (JsonResponse False msg_whatsapp, d, [])
          else
            (case get_settings e d of
               Inl err \<Rightarrow> (internal_error req, d, [])
             | Inr (form_settings, d1) \<Rightarrow>
                 if present attachment \<and>
                    upload_size (the attachment) > max_file_size_mb form_settings * 1024 * 1024
                 then (JsonResponse False (msg_too_large (max_file_size_mb form_settings)), d1, [])
                 else if present attachment \<and>
                    file_extension e (upload_name (the attachment)) \<notin>
                      set (allowed_types e form_settings)
                 then (JsonResponse False (msg_bad_type (allowed_types e form_settings)), d1, [])
                 else
                   (case contact_create e name whatsapp email project_description attachment d1 of
                      Inl err \<Rightarrow> (internal_error req, d1, [])
                    | Inr (contact, d2) \<Rightarrow>
                        (if is_ajax req then JsonResponse True msg_success
                         else Redirect (ascii ''landing_page'') (MsgSuccess msg_success),
                         d2,
                         Persisted (the (contact_id contact)) #
                           notifications e form_settings (the (contact_id contact)) contact))))"


section \<open>Visit tracking (main/views.py)\<close>

text \<open>
  \<^verbatim>\<open>get_client_ip\<close>: the text before the first comma of a non-empty
  \<^verbatim>\<open>X-Forwarded-For\<close>, the address of the connection otherwise (\<open>None\<close> when the server
  gave none).
\<close>

definition get_client_ip :: "request \<Rightarrow> str option" where
  "get_client_ip req =
     (case HTTP_X_FORWARDED_FOR req of
        None \<Rightarrow> REMOTE_ADDR req
      | Some x_forwarded_for \<Rightarrow>
          if x_forwarded_for \<noteq> []
          then Some (hd (split_on COMMA x_forwarded_for))
          else REMOTE_ADDR req)"

record device_info =
  info_device_type :: device
  info_browser :: str
  info_operating_system :: str

definition get_device_info :: "env \<Rightarrow> str \<Rightarrow> device_info" where
  "get_device_info e user_agent_string =
     (let ua = parse e user_agent_string in
      \<lparr>info_device_type =
         (if is_mobile ua then Mobile
          else if is_tablet ua then Tablet
          else if is_pc ua then Desktop
          else Unknown),
       info_browser = browser_family ua @ ascii '' '' @ browser_version_string ua,
       info_operating_system = os_family ua @ ascii '' '' @ os_version_string ua\<rparr>)"

text \<open>The dictionary \<^verbatim>\<open>get_location_info\<close> returns: its values are whatever the
  payload held.\<close>

record location_info =
  info_country :: json
  info_city :: json
  info_region :: json

definition no_location :: location_info where
  "no_location = \<lparr>info_country = JString [], info_city = JString [], info_region = JString []\<rparr>"

text \<open>\<^verbatim>\<open>data[key]\<close> and \<^verbatim>\<open>data.get(key, '')\<close> on a dictionary.\<close>

definition obj_lookup :: "(str \<times> json) list \<Rightarrow> str \<Rightarrow> json option" where
  "obj_lookup data key = map_of (rev data) key"

definition dict_get :: "(str \<times> json) list \<Rightarrow> str \<Rightarrow> json" where
  "dict_get data key = (case obj_lookup data key of None \<Rightarrow> JString [] | Some v \<Rightarrow> v)"

text \<open>
  The body of the \<^verbatim>\<open>try\<close> block of \<^verbatim>\<open>get_location_info\<close>: it raises, returns a
  location, or falls through to the statement after the block (\<open>Inr None\<close>). Indexing
  anything but a dictionary by \<^verbatim>\<open>'status'\<close> raises \<^verbatim>\<open>TypeError\<close>.
\<close>

definition location_try :: "http_result \<Rightarrow> py_error + location_info option" where
  "location_try r =
     (case r of
        RequestFailed \<Rightarrow> Inl RequestException
      | Response status_code body \<Rightarrow>
          if status_code = 200
          then (case body of
                  NotJson \<Rightarrow> Inl JSONDecodeError
                | Json (JObject data) \<Rightarrow>
                    (case obj_lookup data (ascii ''status'') of
                       None \<Rightarrow> Inl (KeyError (ascii ''status''))
                     | Some status \<Rightarrow>
                         if status = JString (ascii ''success'')
                         then Inr (Some \<lparr>info_country = dict_get data (ascii ''country''),
                                         info_city = dict_get data (ascii ''city''),
                                         info_region = dict_get data (ascii ''regionName'')\<rparr>)
                         else Inr None)
                | Json _ \<Rightarrow> Inl TypeError)
          else Inr None)"

text \<open>The f-string \<^verbatim>\<open>{ip_address}\<close>.\<close>

definition format_ip :: "str option \<Rightarrow> str" where
  "format_ip ip = (case ip of None \<Rightarrow> ascii ''None'' | Some s \<Rightarrow> s)"

text \<open>
  The bare \<^verbatim>\<open>except: pass\<close> catches whatever the block raises; the function then
  returns the empty location, as it does when the block falls through.
\<close>

definition get_location_info :: "env \<Rightarrow> str option \<Rightarrow> py_error + location_info" where
  "get_location_info e ip =
     (case location_try (geo_lookup e (format_ip ip)) of
        Inl err \<Rightarrow> Inr no_location
      | Inr None \<Rightarrow> Inr no_location
      | Inr (Some loc) \<Rightarrow> Inr loc)"

definition meta_get :: "str option \<Rightarrow> str" where
  "meta_get v = (case v of None \<Rightarrow> [] | Some x \<Rightarrow> x)"

text \<open>
  What the insert makes of a value given for a text column without \<^verbatim>\<open>null=True\<close>
  (\<^verbatim>\<open>CharField.get_prep_value\<close>): a string is kept, \<^verbatim>\<open>None\<close> goes to the database as
  NULL and violates the column's NOT NULL constraint, anything else is passed through
  \<^verbatim>\<open>str()\<close>.
\<close>

definition char_column :: "env \<Rightarrow> json \<Rightarrow> py_error + str" where
  "char_column e v =
     (case v of
        JNull \<Rightarrow> Inl IntegrityError
      | JString s \<Rightarrow> Inr s
      | _ \<Rightarrow> Inr (py_str e v))"

text \<open>
  The same for the address column (\<^verbatim>\<open>GenericIPAddressField\<close>, without \<^verbatim>\<open>null=True\<close>):
  a value with a colon is normalised as an IPv6 address where that succeeds, and the
  empty string is sent as NULL, as \<^verbatim>\<open>None\<close> is.
\<close>

definition ip_column :: "env \<Rightarrow> str option \<Rightarrow> py_error + str" where
  "ip_column e v =
     (case v of
        None \<Rightarrow> Inl IntegrityError
      | Some s \<Rightarrow>
          (let value = (if COLON \<in> set s
                        then (case clean_ipv6 e s of None \<Rightarrow> s | Some c \<Rightarrow> c)
                        else s)
           in if value = [] then Inl IntegrityError else Inr value))"

text \<open>
  \<^verbatim>\<open>track_page_view\<close> has no handler of its own: an exception of
  \<^verbatim>\<open>get_location_info\<close> or of \<^verbatim>\<open>PageView.objects.create\<close> leaves it.
\<close>

definition track_page_view ::
  "env \<Rightarrow> request \<Rightarrow> str \<Rightarrow> db \<Rightarrow> py_error + (page_view \<times> db)" where
  "track_page_view e req url d =
     (let ip = get_client_ip req;
          ua = meta_get (HTTP_USER_AGENT req);
          ref = meta_get (HTTP_REFERER req);
          device = get_device_info e ua
      in case get_location_info e ip of
           Inl err \<Rightarrow> Inl err
         | Inr location \<Rightarrow>
             (case (ip_column e ip,
                    char_column e (info_country location),
                    char_column e (info_city location),
                    char_column e (info_region location)) of
                (Inr ip_value, Inr country_value, Inr city_value, Inr region_value) \<Rightarrow>
                  (let page_view =
                         \<lparr>ip_address = ip_value, user_agent = ua, referer = ref, page_url = url,
                          country = country_value, city = city_value, region = region_value,
                          device_type = info_device_type device, browser = info_browser device,
                          operating_system = info_operating_system device,
                          timestamp = now e,
                          session_id = meta_get (session_key req),
                          time_on_page = 0\<rparr>
                   in case insert_page_view e (page_views d) page_view of
                        Some err \<Rightarrow> Inl err
                      | None \<Rightarrow> Inr (page_view, d\<lparr>page_views := page_views d @ [page_view]\<rparr>))
              | _ \<Rightarrow> Inl IntegrityError))"

section \<open>Aggregation (main/models.py, main/views.py, dashboard/views.py)\<close>

text \<open>\<^verbatim>\<open>PageView.is_unique_visitor\<close>: no earlier view from the same address.\<close>

definition is_unique_visitor :: "page_view list \<Rightarrow> page_view \<Rightarrow> bool" where
  "is_unique_visitor pvs self =
     (\<not> list_ex (\<lambda>p. ip_address p = ip_address self \<and> timestamp p < timestamp self) pvs)"

text \<open>\<^verbatim>\<open>filter(timestamp__date=date)\<close> and \<^verbatim>\<open>filter(created_at__date=date)\<close>.\<close>

definition views_on :: "date \<Rightarrow> page_view list \<Rightarrow> page_view list" where
  "views_on dt pvs = filter (\<lambda>p. date_of (timestamp p) = dt) pvs"

definition contacts_on :: "date \<Rightarrow> contact list \<Rightarrow> contact list" where
  "contacts_on dt cs = filter (\<lambda>c. date_of (created_at c) = dt) cs"

text \<open>\<^verbatim>\<open>values('ip_address').distinct().count()\<close>.\<close>

definition distinct_ips :: "page_view list \<Rightarrow> nat" where
  "distinct_ips pvs = length (remdups (map ip_address pvs))"

text \<open>
  \<^verbatim>\<open>exclude(country='').values('country').annotate(count=Count('country')).order_by('-count')\<close>:
  one group per country value that is not empty, with the number of its rows, sorted by
  falling count. The sort keeps groups of equal count in the order the engine emitted
  them, so \<open>group_order\<close> stands for every order of ties the database may return.
\<close>

definition country_stats :: "env \<Rightarrow> page_view list \<Rightarrow> (str \<times> nat) list" where
  "country_stats e pvs =
     (let values = map country (filter (\<lambda>p. country p \<noteq> []) pvs)
      in sort_key (\<lambda>g. - int (snd g)) (map (\<lambda>c. (c, count_list values c)) (group_order e values)))"

text \<open>The slice \<^verbatim>\<open>[:n]\<close> of it.\<close>

definition top_countries :: "env \<Rightarrow> nat \<Rightarrow> page_view list \<Rightarrow> (str \<times> nat) list" where
  "top_countries e n pvs = take n (country_stats e pvs)"

definition api_stats_top_countries :: "env \<Rightarrow> db \<Rightarrow> (str \<times> nat) list" where
  "api_stats_top_countries e d = top_countries e 5 (page_views d)"

definition in_range :: "date \<Rightarrow> date \<Rightarrow> date \<Rightarrow> bool" where
  "in_range start_date end_date dt = (start_date \<le> dt \<and> dt \<le> end_date)"

definition analytics_top_countries :: "env \<Rightarrow> db \<Rightarrow> date \<Rightarrow> date \<Rightarrow> (str \<times> nat) list" where
  "analytics_top_countries e d start_date end_date =
     top_countries e 10
       (filter (\<lambda>p. in_range start_date end_date (date_of (timestamp p))) (page_views d))"

definition new_statistics :: "env \<Rightarrow> date \<Rightarrow> site_statistics" where
  "new_statistics e dt =
     \<lparr>stats_date = dt, total_views = 0, unique_visitors = 0, contact_submissions = 0,
      top_country_1 = [], top_country_1_count = 0,
      top_country_2 = [], top_country_2_count = 0,
      top_country_3 = [], top_country_3_count = 0,
      desktop_views = 0, mobile_views = 0, tablet_views = 0,
      stats_created_at = now e, stats_updated_at = now e\<rparr>"

text \<open>\<^verbatim>\<open>setattr(stats, f'top_country_{i}', ...)\<close> and its count, for one \<open>i\<close>.\<close>

definition set_top_country :: "nat \<times> (str \<times> nat) \<Rightarrow> site_statistics \<Rightarrow> site_statistics" where
  "set_top_country ics stats =
     (let i = fst ics; country_stat = snd ics in
      if i = 1 then stats\<lparr>top_country_1 := fst country_stat, top_country_1_count := snd country_stat\<rparr>
      else if i = 2 then stats\<lparr>top_country_2 := fst country_stat, top_country_2_count := snd country_stat\<rparr>
      else if i = 3 then stats\<lparr>top_country_3 := fst country_stat, top_country_3_count := snd country_stat\<rparr>
      else stats)"

definition update_daily_stats :: "env \<Rightarrow> date option \<Rightarrow> db \<Rightarrow> site_statistics \<times> db" where
  "update_daily_stats e date_arg d =
     (let dt = (case date_arg of None \<Rightarrow> date_of (now e) | Some x \<Rightarrow> x);
          stats = (case statistics d dt of Some s \<Rightarrow> s | None \<Rightarrow> new_statistics e dt);
          daily_views = views_on dt (page_views d);
          stats = stats\<lparr>total_views := length daily_views\<rparr>;
          stats = stats\<lparr>unique_visitors := distinct_ips daily_views\<rparr>;
          stats = stats\<lparr>contact_submissions := length (contacts_on dt (contacts d))\<rparr>;
          stats = stats\<lparr>desktop_views := length (filter (\<lambda>p. device_type p = Desktop) daily_views)\<rparr>;
          stats = stats\<lparr>mobile_views := length (filter (\<lambda>p. device_type p = Mobile) daily_views)\<rparr>;
          stats = stats\<lparr>tablet_views := length (filter (\<lambda>p. device_type p = Tablet) daily_views)\<rparr>;
          stats = fold set_top_country (enumerate 1 (top_countries e 3 daily_views)) stats;
          stats = stats\<lparr>stats_updated_at := now e\<rparr>
      in (stats, d\<lparr>statistics := (statistics d)(dt \<mapsto> stats)\<rparr>))"

text \<open>
  The first-ever-seen rule in the words of the data model: the addresses whose first
  recorded view, over the whole history, falls on the given day.
\<close>

definition first_seen_visitors :: "date \<Rightarrow> page_view list \<Rightarrow> nat" where
  "first_seen_visitors dt pvs =
     length (remdups (map ip_address
       (filter (\<lambda>p. date_of (timestamp p) = dt \<and> is_unique_visitor pvs p) pvs)))"

text \<open>
  An order of ties in the words of the specification: groups in the order in which
  their country first occurs among the rows.
\<close>

definition first_occurrence_order :: "str list \<Rightarrow> str list" where
  "first_occurrence_order values = rev (remdups (rev values))"

definition top_countries_stable :: "nat \<Rightarrow> page_view list \<Rightarrow> (str \<times> nat) list" where
  "top_countries_stable n pvs =
     (let values = map country (filter (\<lambda>p. country p \<noteq> []) pvs)
      in take n (sort_key (\<lambda>g. - int (snd g))
           (map (\<lambda>c. (c, count_list values c)) (first_occurrence_order values))))"

text \<open>
  The daily series of the analytics page. Each entry carries its date; the page prints
  it as day/month.
\<close>

record daily_entry =
  entry_date :: date
  entry_views :: nat
  entry_visitors :: nat
  entry_contacts :: nat

definition daily_entry_of :: "page_view list \<Rightarrow> contact list \<Rightarrow> date \<Rightarrow> daily_entry" where
  "daily_entry_of pvs cs current_date =
     \<lparr>entry_date = current_date,
      entry_views = length (views_on current_date pvs),
      entry_visitors = distinct_ips (views_on current_date pvs),
      entry_contacts = length (contacts_on current_date cs)\<rparr>"

function daily_stats_loop ::
  "page_view list \<Rightarrow> contact list \<Rightarrow> date \<Rightarrow> date \<Rightarrow> daily_entry list \<Rightarrow>
   py_error + daily_entry list" where
  "daily_stats_loop pvs cs current_date end_date daily_stats =
     (if current_date \<le> end_date
      then (case date_add_days current_date 1 of
              Inl err \<Rightarrow> Inl err
            | Inr next_date \<Rightarrow>
                daily_stats_loop pvs cs next_date end_date
                  (daily_stats @ [daily_entry_of pvs cs current_date]))
      else Inr daily_stats)"
  by pat_completeness auto
termination
  by (relation "measure (\<lambda>(pvs, cs, current_date, end_date, daily_stats).
        nat (end_date + 1 - current_date))")
     (auto simp: date_add_days_def split: if_splits)

definition analytics_daily_stats :: "db \<Rightarrow> date \<Rightarrow> date \<Rightarrow> py_error + daily_entry list" where
  "analytics_daily_stats d start_date end_date =
     (let pvs = filter (\<lambda>p. in_range start_date end_date (date_of (timestamp p))) (page_views d);
          cs = filter (\<lambda>c. in_range start_date end_date (date_of (created_at c))) (contacts d)
      in daily_stats_loop pvs cs start_date end_date [])"

section \<open>The specification's words\<close>

text \<open>
  The conditions the specification names, stated apart from the code so that the code
  can be compared with them.

  \<open>trimmed sp s t\<close>: \<open>t\<close> is \<open>s\<close> without its leading and trailing white space.
\<close>

definition trimmed :: "(codepoint \<Rightarrow> bool) \<Rightarrow> str \<Rightarrow> str \<Rightarrow> bool" where
  "trimmed sp s t =
     (\<exists>pre suf. s = pre @ t @ suf \<and> (\<forall>c \<in> set pre. sp c) \<and> (\<forall>c \<in> set suf. sp c) \<and>
        (t \<noteq> [] \<longrightarrow> \<not> sp (hd t) \<and> \<not> sp (last t)))"

text \<open>
  \<open>separated sep s pieces\<close>: \<open>s\<close> is the list of \<open>pieces\<close> with one separator between
  neighbours, and no piece holds the separator (a comma-separated list, the
  dot-separated parts of a file name).
\<close>

definition separated :: "codepoint \<Rightarrow> str \<Rightarrow> str list \<Rightarrow> bool" where
  "separated sep s pieces =
     (pieces \<noteq> [] \<and> (\<forall>p \<in> set pieces. sep \<notin> set p) \<and>
      s = concat (map (\<lambda>p. p @ [sep]) (butlast pieces)) @ last pieces)"

text \<open>
  The shape the e-mail pattern asks for: a local part, an at sign, a domain part, a dot
  and a last part, each part non-empty and free of white space and at signs (the
  pattern's \<^verbatim>\<open>$\<close> also lets one line feed follow).
\<close>

definition email_shape :: "(codepoint \<Rightarrow> bool) \<Rightarrow> str \<Rightarrow> bool" where
  "email_shape sp s =
     (\<exists>a b c. a \<noteq> [] \<and> b \<noteq> [] \<and> c \<noteq> [] \<and> (\<forall>x \<in> set (a @ b @ c). \<not> sp x \<and> x \<noteq> AT) \<and>
        (s = a @ [AT] @ b @ [DOT] @ c \<or> s = a @ [AT] @ b @ [DOT] @ c @ [LF]))"

text \<open>The value sent for a form field, empty when the field was not sent.\<close>

definition field_value :: "request \<Rightarrow> string \<Rightarrow> str" where
  "field_value req key = (case POST req (ascii key) of None \<Rightarrow> [] | Some v \<Rightarrow> v)"

text \<open>The four text fields of the form after trimming.\<close>

definition fields :: "env \<Rightarrow> request \<Rightarrow> str \<Rightarrow> str \<Rightarrow> str \<Rightarrow> str \<Rightarrow> bool" where
  "fields e req nm wa em pd =
     (trimmed (isspace e) (field_value req ''name'') nm \<and>
      trimmed (isspace e) (field_value req ''whatsapp'') wa \<and>
      trimmed (isspace e) (field_value req ''email'') em \<and>
      trimmed (isspace e) (field_value req ''project_description'') pd)"

text \<open>The three checks on the text fields, on their trimmed values.\<close>

definition filled :: "str \<Rightarrow> str \<Rightarrow> str \<Rightarrow> str \<Rightarrow> bool" where
  "filled nm wa em pd = (nm \<noteq> [] \<and> wa \<noteq> [] \<and> em \<noteq> [] \<and> pd \<noteq> [])"

definition digits_ok :: "env \<Rightarrow> str \<Rightarrow> bool" where
  "digits_ok e wa = (length (filter (isdecimal e) wa) \<in> {10, 11})"

text \<open>
  The configured allow-list: the entries of the comma-separated setting, each trimmed
  and lower-cased, in their order.
\<close>

definition allow_list :: "env \<Rightarrow> contact_form_settings \<Rightarrow> str list \<Rightarrow> bool" where
  "allow_list e fs allowed =
     (\<exists>entries cleaned. separated COMMA (allowed_file_types fs) entries \<and>
        list_all2 (trimmed (isspace e)) entries cleaned \<and> allowed = map (lower e) cleaned)"

text \<open>
  The extension of a file name: the text after its last dot, lower-cased (so the whole
  name, lower-cased, when it has no dot).
\<close>

definition extension_of :: "env \<Rightarrow> str \<Rightarrow> str \<Rightarrow> bool" where
  "extension_of e filename ext =
     (\<exists>parts. separated DOT filename parts \<and> ext = lower e (last parts))"

text \<open>
  The settings in force for a request on the store \<open>d\<close>, and the store once they have
  been read: the row of key 1, or, when there is none, the defaults, inserted under
  that key at the time of the clock.
\<close>

definition configured :: "env \<Rightarrow> db \<Rightarrow> contact_form_settings \<Rightarrow> db \<Rightarrow> bool" where
  "configured e d fs d1 =
     (case find (\<lambda>r. pk r = Some 1) (settings_table d) of
        Some s \<Rightarrow> fs = s \<and> d1 = d
      | None \<Rightarrow>
          fs = (new_settings (Some 1))\<lparr>settings_created_at := now e, settings_updated_at := now e\<rparr> \<and>
          d1 = d\<lparr>settings_table := settings_table d @ [fs]\<rparr>)"

text \<open>The uploaded file, when one with a name came with the request.\<close>

definition attachment_name :: "request \<Rightarrow> str" where
  "attachment_name req = (case FILES_attachment req of None \<Rightarrow> [] | Some f \<Rightarrow> upload_name f)"

definition attachment_size :: "request \<Rightarrow> nat" where
  "attachment_size req = (case FILES_attachment req of None \<Rightarrow> 0 | Some f \<Rightarrow> upload_size f)"

definition attachment_too_large :: "contact_form_settings \<Rightarrow> request \<Rightarrow> bool" where
  "attachment_too_large fs req =
     (attachment_name req \<noteq> [] \<and> max_file_size_mb fs * 1024 * 1024 < attachment_size req)"

text \<open>
  The row a valid submission hands to the store: the trimmed fields, the upload as
  received, the time of the clock, unread, without notes, no id yet.
\<close>

definition submitted_row :: "env \<Rightarrow> request \<Rightarrow> str \<Rightarrow> str \<Rightarrow> str \<Rightarrow> str \<Rightarrow> contact" where
  "submitted_row e req nm wa em pd =
     \<lparr>contact_id = None, name = nm, whatsapp = wa, email = em, project_description = pd,
      attachment = FILES_attachment req,
      created_at = now e, is_read = False, contact_notes = []\<rparr>"

definition success_response :: "request \<Rightarrow> response" where
  "success_response req =
     (if X_Requested_With req = Some (ascii ''XMLHttpRequest'') then JsonResponse True msg_success
      else Redirect (ascii ''landing_page'') (MsgSuccess msg_success))"

definition failure_response :: "request \<Rightarrow> response" where
  "failure_response req =
     (if X_Requested_With req = Some (ascii ''XMLHttpRequest'') then JsonResponse False msg_internal
      else Redirect (ascii ''landing_page'') (MsgError msg_retry))"

text \<open>
  What a stored submission sets off, in order: the insert under the id \<open>k\<close>, then one
  notification of the administrator when notifications are on and an address is set,
  then one reply to the applicant when replies are on; \<open>a\<close> and \<open>r\<close> say how the two
  sends end.
\<close>

definition expected_effects ::
  "contact_form_settings \<Rightarrow> nat \<Rightarrow> str \<Rightarrow> send_result \<Rightarrow> send_result \<Rightarrow> effect list" where
  "expected_effects fs k em a r =
     Persisted k #
     (if email_notifications fs \<and> notification_email fs \<noteq> []
      then [NotifyAdmin k (notification_email fs) a] else []) @
     (if auto_reply_enabled fs then [NotifyApplicant k em r] else [])"

text \<open>
  Tables that treat the letters a-z as what they are: none is white space, and
  lower-casing leaves a string of them as it is.
\<close>

definition plain_letters :: "env \<Rightarrow> bool" where
  "plain_letters e =
     ((\<forall>c. 97 \<le> c \<and> c \<le> 122 \<longrightarrow> \<not> isspace e c) \<and>
      (\<forall>w. (\<forall>c \<in> set w. 97 \<le> c \<and> c \<le> 122) \<longrightarrow> lower e w = w))"

text \<open>
  The outcomes of the geolocation lookup in which the service gives no location: no
  response at all (a timeout), a status other than 200, a body that is not JSON or not
  an object, and an object whose \<open>status\<close> field is missing or is not \<open>success\<close>.
\<close>

fun lookup_failed :: "http_result \<Rightarrow> bool" where
  "lookup_failed RequestFailed = True"
| "lookup_failed (Response status_code NotJson) = True"
| "lookup_failed (Response status_code (Json (JObject data))) =
     (status_code \<noteq> 200 \<or> obj_lookup data (ascii ''status'') \<noteq> Some (JString (ascii ''success'')))"
| "lookup_failed (Response status_code (Json v)) = True"

text \<open>
  What SQL asks of the order in which an engine emits the groups of a column: each value
  that occurs, once.
\<close>

definition valid_group_order :: "(str list \<Rightarrow> str list) \<Rightarrow> bool" where
  "valid_group_order g = (\<forall>values. distinct (g values) \<and> set (g values) = set values)"

text \<open>No two countries named in the given views have the same number of views.\<close>

definition no_ties :: "page_view list \<Rightarrow> bool" where
  "no_ties pvs =
     (\<forall>p \<in> set pvs. \<forall>q \<in> set pvs.
        country p \<noteq> [] \<and> country q \<noteq> [] \<and>
        length (filter (\<lambda>r. country r = country p) pvs) =
        length (filter (\<lambda>r. country r = country q) pvs) \<longrightarrow> country p = country q)"

section \<open>Concrete inputs\<close>

text \<open>
  Small stores, requests and surroundings on which the theorems below are run. The
  three tables hold the entries of the runtime's tables that these inputs touch: the
  white space of Latin-1 (no-break space among it), the ASCII and the Arabic-Indic
  decimal digits, the lower-casing of the Latin-1 letters.
\<close>

definition sample_isspace :: "codepoint \<Rightarrow> bool" where
  "sample_isspace c = ((9 \<le> c \<and> c \<le> 13) \<or> (28 \<le> c \<and> c \<le> 32) \<or> c = 0x85 \<or> c = 0xA0)"

definition sample_isdecimal :: "codepoint \<Rightarrow> bool" where
  "sample_isdecimal c = ((48 \<le> c \<and> c \<le> 57) \<or> (0x660 \<le> c \<and> c \<le> 0x669))"

definition sample_lower :: "str \<Rightarrow> str" where
  "sample_lower s =
     map (\<lambda>c. if (65 \<le> c \<and> c \<le> 90) \<or> (0xC0 \<le> c \<and> c \<le> 0xDE \<and> c \<noteq> 0xD7) then c + 32 else c) s"

definition sample_view :: "str \<Rightarrow> datetime \<Rightarrow> str \<Rightarrow> page_view" where
  "sample_view ip t c =
     \<lparr>ip_address = ip, user_agent = [], referer = [], page_url = ascii ''/'',
      country = c, city = [], region = [], device_type = Unknown, browser = [],
      operating_system = [], timestamp = t, session_id = [], time_on_page = 0\<rparr>"

text \<open>An engine that emits groups in the order of their key, as a scan of an index does.\<close>

definition key_order :: "str list \<Rightarrow> str list" where
  "key_order values = sort (remdups values)"

text \<open>
  Surroundings in which the geolocation service does not answer, both mails fail, and
  the store accepts every row, numbering the contacts from 1.
\<close>

definition sample_env :: env where
  "sample_env =
     \<lparr>now = 200000, admin_mail = Raised, auto_reply = Raised,
      geo_lookup = (\<lambda>ip. RequestFailed),
      parse = (\<lambda>ua. \<lparr>is_mobile = False, is_tablet = False, is_pc = True,
                       browser_family = ascii ''Firefox'', browser_version_string = ascii ''1'',
                       os_family = ascii ''Linux'', os_version_string = []\<rparr>),
      group_order = key_order,
      isspace = sample_isspace, isdecimal = sample_isdecimal, lower = sample_lower,
      py_str = (\<lambda>v. []),
      clean_ipv6 = (\<lambda>s. None),
      insert_contact = (\<lambda>rows row. Inr (Suc (length rows))),
      insert_page_view = (\<lambda>rows row. None)\<rparr>"

definition empty_db :: db where
  "empty_db = \<lparr>contacts = [], page_views = [], settings_table = [], statistics = Map.empty\<rparr>"

text \<open>One address seen on day 1 and again on day 2.\<close>

definition two_day_db :: db where
  "two_day_db = empty_db\<lparr>page_views :=
      [sample_view (ascii ''10.0.0.1'') 90000 (ascii ''BR''),
       sample_view (ascii ''10.0.0.1'') 180000 (ascii ''BR'')]\<rparr>"

text \<open>Two countries with one view each, \<open>US\<close> recorded first.\<close>

definition tied_views :: "page_view list" where
  "tied_views =
     [sample_view (ascii ''10.0.0.1'') 90000 (ascii ''US''),
      sample_view (ascii ''10.0.0.2'') 90001 (ascii ''BR'')]"

text \<open>The two tied views, both of day 1, as the whole store.\<close>

definition tied_db :: db where
  "tied_db = empty_db\<lparr>page_views := tied_views\<rparr>"

text \<open>The same surroundings with an engine that emits groups in order of first arrival.\<close>

definition arrival_env :: env where
  "arrival_env = sample_env\<lparr>group_order := first_occurrence_order\<rparr>"

text \<open>A form submission with the given fields and upload, sent by script from 10.0.0.1.\<close>

definition form_request :: "str \<Rightarrow> str \<Rightarrow> str \<Rightarrow> str \<Rightarrow> upload option \<Rightarrow> request" where
  "form_request n w m p a =
     \<lparr>request_method = ascii ''POST'',
      POST = [ascii ''name'' \<mapsto> n, ascii ''whatsapp'' \<mapsto> w, ascii ''email'' \<mapsto> m,
              ascii ''project_description'' \<mapsto> p],
      FILES_attachment = a,
      X_Requested_With = Some (ascii ''XMLHttpRequest''), HTTP_X_FORWARDED_FOR = None,
      REMOTE_ADDR = Some (ascii ''10.0.0.1''), HTTP_USER_AGENT = None, HTTP_REFERER = None,
      session_key = None\<rparr>"

text \<open>
  A well-formed submission: the name padded with a space and a no-break space, the
  number with punctuation around its eleven digits.
\<close>

definition good_name :: str where
  "good_name = ascii '' Ana'' @ [0xA0]"

definition good_number :: str where
  "good_number = ascii ''(11) 91234-5678''"

definition good_email :: str where
  "good_email = ascii ''ana@example.com''"

definition good_text :: str where
  "good_text = ascii ''Site novo''"

definition sample_request :: request where
  "sample_request = form_request good_name good_number good_email good_text None"

text \<open>A number of eleven Arabic-Indic digits.\<close>

definition arabic_number :: str where
  "arabic_number = [0x661, 0x661, 0x669, 0x661, 0x662, 0x663, 0x664, 0x665, 0x666, 0x667, 0x668]"

text \<open>A store whose settings row is the default one.\<close>

definition settings_db :: db where
  "settings_db = empty_db\<lparr>settings_table := [new_settings (Some 1)]\<rparr>"

text \<open>
  A store configured otherwise: one megabyte, and an allow-list of three entries, the
  second after a no-break space and with a capital, the third with a letter outside
  ASCII.
\<close>

definition custom_settings :: contact_form_settings where
  "custom_settings = (new_settings (Some 1))
     \<lparr>max_file_size_mb := 1,
      allowed_file_types := ascii ''zip,'' @ [0xA0] @ ascii ''Doc,relat'' @ [0xF3] @ ascii ''rio''\<rparr>"

definition custom_db :: db where
  "custom_db = empty_db\<lparr>settings_table := [custom_settings]\<rparr>"

text \<open>Surroundings whose store refuses every contact.\<close>

definition refusing_env :: env where
  "refusing_env = sample_env\<lparr>insert_contact := (\<lambda>rows row. Inl DatabaseError)\<rparr>"

text \<open>Uploads.\<close>

definition big_pdf :: upload where
  "big_pdf = \<lparr>upload_name = ascii ''plan.pdf'', upload_size = 11 * 1024 * 1024\<rparr>"

definition evil_exe :: upload where
  "evil_exe = \<lparr>upload_name = ascii ''evil.exe'', upload_size = 2048\<rparr>"

definition small_doc :: upload where
  "small_doc = \<lparr>upload_name = ascii ''a.b.DOC'', upload_size = 2048\<rparr>"

definition two_mb_zip :: upload where
  "two_mb_zip = \<lparr>upload_name = ascii ''all.zip'', upload_size = 2 * 1024 * 1024\<rparr>"

definition bare_txt :: upload where
  "bare_txt = \<lparr>upload_name = ascii ''TXT'', upload_size = 2048\<rparr>"

definition bare_report :: upload where
  "bare_report = \<lparr>upload_name = ascii ''RELAT'' @ [0xD3] @ ascii ''RIO'', upload_size = 2048\<rparr>"

text \<open>
  Surroundings in which the geolocation service answers with status 200 and a
  \<open>success\<close> object whose country is \<^verbatim>\<open>null\<close>.
\<close>

definition null_country_env :: env where
  "null_country_env = sample_env\<lparr>geo_lookup := (\<lambda>ip. Response 200 (Json (JObject
      [(ascii ''status'', JString (ascii ''success'')),
       (ascii ''country'', JNull),
       (ascii ''regionName'', JString (ascii ''Pernambuco'')),
       (ascii ''city'', JString (ascii ''Recife''))])))\<rparr>"

definition big_exe :: upload where
  "big_exe = \<lparr>upload_name = ascii ''evil.exe'', upload_size = 11 * 1024 * 1024\<rparr>"

text \<open>The two allow-lists as lists of extensions.\<close>

definition default_allowed :: "str list" where
  "default_allowed = [ascii ''pdf'', ascii ''doc'', ascii ''docx'', ascii ''txt'']"

definition relatorio :: str where
  "relatorio = ascii ''relat'' @ [0xF3] @ ascii ''rio''"

definition custom_allowed :: "str list" where
  "custom_allowed = [ascii ''zip'', ascii ''doc'', relatorio]"

section \<open>The daily summary\<close>

lemma fold_set_top_country_unique_visitors:
  "unique_visitors (fold set_top_country xs s) = unique_visitors s"
  by (induction xs arbitrary: s) (auto simp: set_top_country_def Let_def)

text \<open>
  C1 (as amended). For every date, \<open>update_daily_stats\<close> stores as \<open>unique_visitors\<close>
  the number of distinct addresses among the page views of that date, whether or not
  an address was seen on an earlier day, and the row it returns is the row it stores.
\<close>

theorem update_daily_stats_unique_visitors:
  "unique_visitors (fst (update_daily_stats e (Some dt) d)) =
     card (ip_address ` {p \<in> set (page_views d). date_of (timestamp p) = dt})
   \<and> statistics (snd (update_daily_stats e (Some dt) d)) dt =
       Some (fst (update_daily_stats e (Some dt) d))"
proof -
  have "{p \<in> set (page_views d). date_of (timestamp p) = dt} = set (views_on dt (page_views d))"
    by (auto simp: views_on_def)
  then have "card (ip_address ` {p \<in> set (page_views d). date_of (timestamp p) = dt}) =
      distinct_ips (views_on dt (page_views d))"
    by (simp add: distinct_ips_def length_remdups_card_conv)
  then show ?thesis
    by (simp add: update_daily_stats_def Let_def fold_set_top_country_unique_visitors)
qed

theorem update_daily_stats_unique_visitors_witness:
  "unique_visitors (fst (update_daily_stats sample_env (Some 2) two_day_db)) = 1"
proof -
  have "{p \<in> set (page_views two_day_db). date_of (timestamp p) = 2} =
      {sample_view (ascii ''10.0.0.1'') 180000 (ascii ''BR'')}"
    by (auto simp: two_day_db_def empty_db_def sample_view_def ascii_def date_of_def)
  then have "card (ip_address ` {p \<in> set (page_views two_day_db). date_of (timestamp p) = 2}) = 1"
    by simp
  with update_daily_stats_unique_visitors [of sample_env 2 two_day_db] show ?thesis
    by simp
qed

text \<open>
  C1 as stated fails: with one address seen on day 1 and again on day 2, the summary of
  day 2 stores one unique visitor, while no address has its first-ever view on day 2.
\<close>

theorem update_daily_stats_first_seen_counterexample:
  "unique_visitors (fst (update_daily_stats sample_env (Some 2) two_day_db)) \<noteq>
     first_seen_visitors 2 (page_views two_day_db)"
proof -
  have "unique_visitors (fst (update_daily_stats sample_env (Some 2) two_day_db)) = 1"
    by (simp add: update_daily_stats_def Let_def fold_set_top_country_unique_visitors
        two_day_db_def empty_db_def sample_view_def ascii_def views_on_def distinct_ips_def date_of_def)
  moreover have "first_seen_visitors 2 (page_views two_day_db) = 0"
    by (simp add: two_day_db_def empty_db_def sample_view_def ascii_def date_of_def
        first_seen_visitors_def is_unique_visitor_def)
  ultimately show ?thesis by simp
qed

section \<open>The daily series of the analytics page\<close>

lemma daily_stats_loop_range:
  "date_min \<le> s \<Longrightarrow> e < date_max \<Longrightarrow>
   daily_stats_loop pvs cs s e acc = Inr (acc @ map (daily_entry_of pvs cs) [s..e])"
proof (induction pvs cs s e acc rule: daily_stats_loop.induct)
  case (1 pvs cs current_date end_date daily_stats)
  show ?case
  proof (cases "current_date \<le> end_date")
    case True
    then have nxt: "date_add_days current_date 1 = Inr (current_date + 1)"
      using "1.prems" by (simp add: date_add_days_def)
    have "daily_stats_loop pvs cs (current_date + 1) end_date
            (daily_stats @ [daily_entry_of pvs cs current_date]) =
          Inr ((daily_stats @ [daily_entry_of pvs cs current_date]) @
               map (daily_entry_of pvs cs) [current_date + 1..end_date])"
      using "1.IH" [OF True nxt] "1.prems" by simp
    moreover have "[current_date..end_date] = current_date # [current_date + 1..end_date]"
      using True by (simp add: upto_rec1)
    ultimately show ?thesis
      using True nxt by (subst daily_stats_loop.simps) simp
  next
    case False
    then show ?thesis by (subst daily_stats_loop.simps) simp
  qed
qed

text \<open>
  Below the last date the loop does what C7 says: one entry per date of the range, oldest
  first, each with the counts of its date (zero where the date has no rows).
\<close>

lemma analytics_daily_stats_range:
  assumes "date_min \<le> s" "e < date_max"
  shows "analytics_daily_stats d s e =
     Inr (map (daily_entry_of
            (filter (\<lambda>p. in_range s e (date_of (timestamp p))) (page_views d))
            (filter (\<lambda>c. in_range s e (date_of (created_at c))) (contacts d))) [s..e])"
  using daily_stats_loop_range [OF assms] by (simp add: analytics_daily_stats_def Let_def)

text \<open>
  C7 at the range that starts and ends on 9999-12-31: the step to the next date, taken
  after the entry of the last date is built, leaves the range of dates and the loop
  raises instead of returning the entry.
\<close>

theorem analytics_daily_stats_last_date_raises:
  "analytics_daily_stats d date_max date_max = Inl OverflowError"
  by (simp add: analytics_daily_stats_def Let_def date_add_days_def date_max_def date_min_def
      daily_stats_loop.simps [of _ _ 3652059 3652059])

section \<open>The settings singleton\<close>

lemma save_without_key_rejected:
  "pk s = None \<or> pk s = Some 0 \<Longrightarrow> settings_table d \<noteq> [] \<Longrightarrow>
   save e s d = Inl (ValueError msg_only_one)"
  by (simp add: save_def)

text \<open>
  C5 where the guard of \<open>save\<close> does not reach: a new instance that carries a key of its
  own is inserted beside the row already there, and \<open>get_settings\<close>, which builds its
  instance with the key 1, adds a second row to a table whose only row has another key.
\<close>

theorem save_explicit_key_second_row:
  "save e (new_settings (Some 2)) (d\<lparr>settings_table := [new_settings (Some 1)]\<rparr>) =
     Inr (new_settings (Some 2)\<lparr>settings_created_at := now e, settings_updated_at := now e\<rparr>,
          d\<lparr>settings_table := [new_settings (Some 1),
             new_settings (Some 2)\<lparr>settings_created_at := now e, settings_updated_at := now e\<rparr>]\<rparr>)
   \<and> (case get_settings e (d\<lparr>settings_table := [new_settings (Some 2)]\<rparr>) of
        Inl err \<Rightarrow> False
      | Inr (s, d') \<Rightarrow> map pk (settings_table d') = [Some 2, Some 1])"
  by (simp add: save_def get_settings_def model_save_def new_settings_def Let_def)

section \<open>Top countries\<close>

lemma key_order_valid: "valid_group_order key_order"
  by (simp add: valid_group_order_def key_order_def)

lemma two_groups:
  assumes "distinct xs" "set xs = {a, b}" "a \<noteq> b"
  shows "xs = [a, b] \<or> xs = [b, a]"
proof -
  have "length xs = 2"
    using assms distinct_card [of xs] by simp
  then obtain x y where "xs = [x, y]"
    by (auto simp: length_Suc_conv numeral_2_eq_2)
  with assms show ?thesis
    by (auto simp: doubleton_eq_iff)
qed

lemma count_list_country:
  "c \<noteq> [] \<Longrightarrow>
   count_list (map country (filter (\<lambda>p. country p \<noteq> []) pvs)) c =
     length (filter (\<lambda>p. country p = c) pvs)"
  by (induction pvs) auto

lemma country_values_set:
  "set (map country (filter (\<lambda>p. country p \<noteq> []) pvs)) = {c \<in> country ` set pvs. c \<noteq> []}"
  by auto

text \<open>
  C8 (as amended). For every list of page views and every order in which the database
  may emit groups, \<open>top_countries\<close> returns the first \<open>n\<close> entries of a list that has one
  group per non-empty country value, each with the number of views of that country, in
  falling order of count; nothing in the code fixes the order of groups of equal count.
  Over views of BR, BR, US, BR, US it returns BR with 3 and then US with 2.
\<close>

theorem top_countries_sorted_groups:
  assumes "valid_group_order (group_order e)"
  shows "top_countries e n pvs = take n (country_stats e pvs) \<and>
    sorted_wrt (\<lambda>g h. snd h \<le> snd g) (country_stats e pvs) \<and>
    distinct (map fst (country_stats e pvs)) \<and>
    fst ` set (country_stats e pvs) = {c \<in> country ` set pvs. c \<noteq> []} \<and>
    (\<forall>g \<in> set (country_stats e pvs). snd g = length (filter (\<lambda>p. country p = fst g) pvs)) \<and>
    (map country pvs = [ascii ''BR'', ascii ''BR'', ascii ''US'', ascii ''BR'', ascii ''US''] \<longrightarrow>
       top_countries e 5 pvs = [(ascii ''BR'', 3), (ascii ''US'', 2)])"
proof -
  define vs where "vs = map country (filter (\<lambda>p. country p \<noteq> []) pvs)"
  define mk where "mk = (\<lambda>c. (c, count_list vs c))"
  define key where "key = (\<lambda>g :: str \<times> nat. - int (snd g))"
  have cs: "country_stats e pvs = sort_key key (map mk (group_order e vs))"
    by (simp add: country_stats_def Let_def vs_def mk_def key_def)
  have dist: "distinct (group_order e vs)" and st: "set (group_order e vs) = set vs"
    using assms by (simp_all add: valid_group_order_def)
  have "sorted (map key (country_stats e pvs))"
    by (simp add: cs)
  then have sorted: "sorted_wrt (\<lambda>g h. snd h \<le> snd g) (country_stats e pvs)"
    by (simp add: sorted_map key_def)
  have setcs: "set (country_stats e pvs) = mk ` set vs"
    by (simp add: cs st)
  have "distinct (map mk (group_order e vs))"
    using dist by (simp add: distinct_map inj_on_def mk_def)
  then have "distinct (country_stats e pvs)"
    by (simp add: cs)
  moreover have "inj_on fst (set (country_stats e pvs))"
    unfolding setcs by (auto simp: inj_on_def mk_def)
  ultimately have d: "distinct (map fst (country_stats e pvs))"
    by (simp add: distinct_map)
  have "fst ` set (country_stats e pvs) = set vs"
    unfolding setcs by (simp add: image_image mk_def)
  then have keys: "fst ` set (country_stats e pvs) = {c \<in> country ` set pvs. c \<noteq> []}"
    using country_values_set [of pvs] by (simp only: vs_def)
  have counts: "\<forall>g \<in> set (country_stats e pvs). snd g = length (filter (\<lambda>p. country p = fst g) pvs)"
  proof
    fix g assume "g \<in> set (country_stats e pvs)"
    then obtain c where c: "c \<in> set vs" "g = mk c"
      using setcs by auto
    then have "c \<noteq> []" by (auto simp: vs_def)
    then show "snd g = length (filter (\<lambda>p. country p = fst g) pvs)"
      using c count_list_country [of c pvs] by (simp add: mk_def vs_def)
  qed
  have ex: "top_countries e 5 pvs = [(ascii ''BR'', 3), (ascii ''US'', 2)]"
    if m: "map country pvs = [ascii ''BR'', ascii ''BR'', ascii ''US'', ascii ''BR'', ascii ''US'']"
  proof -
    have "map country (filter (\<lambda>p. country p \<noteq> []) pvs) = filter (\<lambda>c. c \<noteq> []) (map country pvs)"
      by (simp add: filter_map comp_def)
    moreover have "ascii ''BR'' \<noteq> []" "ascii ''US'' \<noteq> []"
      by (simp_all add: ascii_def)
    ultimately have v: "vs = [ascii ''BR'', ascii ''BR'', ascii ''US'', ascii ''BR'', ascii ''US'']"
      using m by (simp add: vs_def)
    have "set (group_order e vs) = {ascii ''BR'', ascii ''US''}"
      using st v by auto
    moreover have "ascii ''BR'' \<noteq> ascii ''US''"
      by (simp add: ascii_def)
    ultimately have "group_order e vs = [ascii ''BR'', ascii ''US''] \<or> group_order e vs = [ascii ''US'', ascii ''BR'']"
      using two_groups [OF dist, of "ascii ''BR''" "ascii ''US''"] by simp
    then show ?thesis
      by (auto simp: top_countries_def cs mk_def key_def v ascii_def)
  qed
  show ?thesis
    using sorted d keys counts ex by (simp add: top_countries_def)
qed

theorem top_countries_sorted_groups_witness:
  "valid_group_order (group_order sample_env) \<and>
   api_stats_top_countries sample_env
     (empty_db\<lparr>page_views := map (sample_view (ascii ''10.0.0.1'') 90000) [ascii ''BR'', ascii ''BR'', ascii ''US'', ascii ''BR'', ascii ''US'']\<rparr>)
     = [(ascii ''BR'', 3), (ascii ''US'', 2)]"
proof -
  have v: "valid_group_order (group_order sample_env)"
    by (simp add: sample_env_def key_order_valid)
  have m: "map country (map (sample_view (ascii ''10.0.0.1'') 90000) [ascii ''BR'', ascii ''BR'', ascii ''US'', ascii ''BR'', ascii ''US''])
      = [ascii ''BR'', ascii ''BR'', ascii ''US'', ascii ''BR'', ascii ''US'']"
    by (simp add: sample_view_def)
  from top_countries_sorted_groups [OF v, of 5
      "map (sample_view (ascii ''10.0.0.1'') 90000) [ascii ''BR'', ascii ''BR'', ascii ''US'', ascii ''BR'', ascii ''US'']",
      THEN conjunct2, THEN conjunct2, THEN conjunct2, THEN conjunct2, THEN conjunct2, rule_format, OF m]
  have "top_countries sample_env 5
      (map (sample_view (ascii ''10.0.0.1'') 90000) [ascii ''BR'', ascii ''BR'', ascii ''US'', ascii ''BR'', ascii ''US'']) =
      [(ascii ''BR'', 3), (ascii ''US'', 2)]" .
  with v show ?thesis
    by (simp add: api_stats_top_countries_def empty_db_def)
qed

text \<open>
  C8 as stated fails: with US recorded first and BR second, one view each, an engine that
  emits groups in key order returns BR before US, where a stable tie-break in insertion
  order asks for US before BR.
\<close>

theorem top_countries_tie_order_counterexample:
  "valid_group_order (group_order sample_env) \<and>
   top_countries sample_env 5 tied_views = [(ascii ''BR'', 1), (ascii ''US'', 1)] \<and>
   top_countries_stable 5 tied_views = [(ascii ''US'', 1), (ascii ''BR'', 1)]"
  by (simp add: key_order_valid sample_env_def top_countries_def country_stats_def
      top_countries_stable_def first_occurrence_order_def tied_views_def sample_view_def
      key_order_def Let_def ascii_def)

section \<open>Running the daily summary again\<close>

lemma take_3_cases:
  "take 3 xs = [] \<or> (\<exists>a. take 3 xs = [a]) \<or> (\<exists>a b. take 3 xs = [a, b]) \<or>
   (\<exists>a b c. take 3 xs = [a, b, c])"
proof (cases xs)
  case Nil
  then show ?thesis by simp
next
  case (Cons a ys)
  note xs = this
  show ?thesis
  proof (cases ys)
    case Nil
    with xs show ?thesis by simp
  next
    case (Cons b zs)
    with xs show ?thesis by (cases zs) (simp_all add: numeral_3_eq_3)
  qed
qed

lemma fold_set_top_country_frame:
  "stats_date (fold set_top_country xs s) = stats_date s"
  "total_views (fold set_top_country xs s) = total_views s"
  "contact_submissions (fold set_top_country xs s) = contact_submissions s"
  "desktop_views (fold set_top_country xs s) = desktop_views s"
  "mobile_views (fold set_top_country xs s) = mobile_views s"
  "tablet_views (fold set_top_country xs s) = tablet_views s"
  "stats_created_at (fold set_top_country xs s) = stats_created_at s"
  by (induction xs arbitrary: s; simp add: set_top_country_def Let_def)+

text \<open>The row a run stores, from the row it found and the top three groups of the day.\<close>

lemma update_daily_stats_row:
  "fst (update_daily_stats e (Some dt) d) =
     (fold set_top_country (enumerate 1 (top_countries e 3 (views_on dt (page_views d))))
        ((case statistics d dt of Some s \<Rightarrow> s | None \<Rightarrow> new_statistics e dt)
           \<lparr>total_views := length (views_on dt (page_views d)),
            unique_visitors := distinct_ips (views_on dt (page_views d)),
            contact_submissions := length (contacts_on dt (contacts d)),
            desktop_views := length (filter (\<lambda>p. device_type p = Desktop) (views_on dt (page_views d))),
            mobile_views := length (filter (\<lambda>p. device_type p = Mobile) (views_on dt (page_views d))),
            tablet_views := length (filter (\<lambda>p. device_type p = Tablet) (views_on dt (page_views d)))\<rparr>))
     \<lparr>stats_updated_at := now e\<rparr>"
  by (simp add: update_daily_stats_def Let_def)

lemma update_daily_stats_store:
  "snd (update_daily_stats e (Some dt) d) =
     d\<lparr>statistics := (statistics d)(dt \<mapsto> fst (update_daily_stats e (Some dt) d))\<rparr>"
  by (simp add: update_daily_stats_def Let_def)

lemma rerun_same_groups:
  assumes "top_countries e2 3 (views_on dt (page_views d)) =
           top_countries e1 3 (views_on dt (page_views d))"
  shows "fst (update_daily_stats e2 (Some dt) (snd (update_daily_stats e1 (Some dt) d))) =
         (fst (update_daily_stats e1 (Some dt) d))\<lparr>stats_updated_at := now e2\<rparr>"
proof -
  let ?T = "top_countries e1 3 (views_on dt (page_views d))"
  from take_3_cases [of "country_stats e1 (views_on dt (page_views d))"]
  consider "?T = []" | a where "?T = [a]" | a b where "?T = [a, b]"
    | a b c where "?T = [a, b, c]"
    unfolding top_countries_def by blast
  then show ?thesis
  proof cases
    case 1
    with assms show ?thesis
      by (simp add: update_daily_stats_row update_daily_stats_store)
  next
    case 2
    with assms show ?thesis
      by (simp add: update_daily_stats_row update_daily_stats_store set_top_country_def)
  next
    case 3
    with assms show ?thesis
      by (simp add: update_daily_stats_row update_daily_stats_store set_top_country_def)
  next
    case 4
    with assms show ?thesis
      by (simp add: update_daily_stats_row update_daily_stats_store set_top_country_def)
  qed
qed

lemma rerun_counts:
  assumes "map snd (top_countries e2 3 (views_on dt (page_views d))) =
           map snd (top_countries e1 3 (views_on dt (page_views d)))"
  shows "top_country_1_count (fst (update_daily_stats e2 (Some dt) (snd (update_daily_stats e1 (Some dt) d)))) =
         top_country_1_count (fst (update_daily_stats e1 (Some dt) d))"
    and "top_country_2_count (fst (update_daily_stats e2 (Some dt) (snd (update_daily_stats e1 (Some dt) d)))) =
         top_country_2_count (fst (update_daily_stats e1 (Some dt) d))"
    and "top_country_3_count (fst (update_daily_stats e2 (Some dt) (snd (update_daily_stats e1 (Some dt) d)))) =
         top_country_3_count (fst (update_daily_stats e1 (Some dt) d))"
proof -
  let ?T1 = "top_countries e1 3 (views_on dt (page_views d))"
  let ?T2 = "top_countries e2 3 (views_on dt (page_views d))"
  from take_3_cases [of "country_stats e1 (views_on dt (page_views d))"]
  consider "?T1 = []" | a where "?T1 = [a]" | a b where "?T1 = [a, b]"
    | a b c where "?T1 = [a, b, c]"
    unfolding top_countries_def by blast
  then have "top_country_1_count (fst (update_daily_stats e2 (Some dt) (snd (update_daily_stats e1 (Some dt) d)))) =
         top_country_1_count (fst (update_daily_stats e1 (Some dt) d)) \<and>
       top_country_2_count (fst (update_daily_stats e2 (Some dt) (snd (update_daily_stats e1 (Some dt) d)))) =
         top_country_2_count (fst (update_daily_stats e1 (Some dt) d)) \<and>
       top_country_3_count (fst (update_daily_stats e2 (Some dt) (snd (update_daily_stats e1 (Some dt) d)))) =
         top_country_3_count (fst (update_daily_stats e1 (Some dt) d))"
  proof cases
    case 1
    with assms have "?T2 = []" by simp
    with 1 show ?thesis
      by (simp add: update_daily_stats_row update_daily_stats_store)
  next
    case 2
    with assms obtain a' where "?T2 = [a']" "snd a' = snd a" by (auto simp: map_eq_Cons_conv)
    with 2 show ?thesis
      by (simp add: update_daily_stats_row update_daily_stats_store set_top_country_def)
  next
    case 3
    with assms obtain a' b' where "?T2 = [a', b']" "snd a' = snd a" "snd b' = snd b"
      by (auto simp: map_eq_Cons_conv)
    with 3 show ?thesis
      by (simp add: update_daily_stats_row update_daily_stats_store set_top_country_def)
  next
    case 4
    with assms obtain a' b' c' where "?T2 = [a', b', c']" "snd a' = snd a" "snd b' = snd b" "snd c' = snd c"
      by (auto simp: map_eq_Cons_conv)
    with 4 show ?thesis
      by (simp add: update_daily_stats_row update_daily_stats_store set_top_country_def)
  qed
  then show "top_country_1_count (fst (update_daily_stats e2 (Some dt) (snd (update_daily_stats e1 (Some dt) d)))) =
         top_country_1_count (fst (update_daily_stats e1 (Some dt) d))"
    and "top_country_2_count (fst (update_daily_stats e2 (Some dt) (snd (update_daily_stats e1 (Some dt) d)))) =
         top_country_2_count (fst (update_daily_stats e1 (Some dt) d))"
    and "top_country_3_count (fst (update_daily_stats e2 (Some dt) (snd (update_daily_stats e1 (Some dt) d)))) =
         top_country_3_count (fst (update_daily_stats e1 (Some dt) d))"
    by simp_all
qed

text \<open>Two engines agree on the counts, place by place.\<close>

lemma country_stats_counts:
  assumes "valid_group_order (group_order e1)" "valid_group_order (group_order e2)"
  shows "map snd (country_stats e2 pvs) = map snd (country_stats e1 pvs)"
proof -
  define vs where "vs = map country (filter (\<lambda>p. country p \<noteq> []) pvs)"
  define mk where "mk = (\<lambda>c. (c, count_list vs c))"
  define key where "key = (\<lambda>g :: str \<times> nat. - int (snd g))"
  have cs: "country_stats e pvs = sort_key key (map mk (group_order e vs))" for e
    by (simp add: country_stats_def Let_def vs_def mk_def key_def)
  have "distinct (group_order e1 vs)" "distinct (group_order e2 vs)"
    "set (group_order e1 vs) = set (group_order e2 vs)"
    using assms by (simp_all add: valid_group_order_def)
  then have "mset (group_order e1 vs) = mset (group_order e2 vs)"
    by (simp add: set_eq_iff_mset_eq_distinct)
  then have "mset (map key (country_stats e1 pvs)) = mset (map key (country_stats e2 pvs))"
    by (simp add: cs)
  moreover have "sorted (map key (country_stats e1 pvs))" "sorted (map key (country_stats e2 pvs))"
    by (simp_all add: cs)
  ultimately have "map key (country_stats e2 pvs) = map key (country_stats e1 pvs)"
    using properties_for_sort [of "map key (country_stats e1 pvs)" "map key (country_stats e2 pvs)"]
      sorted_sort_id [of "map key (country_stats e2 pvs)"] by simp
  then have "map (\<lambda>k. nat (- k)) (map key (country_stats e2 pvs)) =
      map (\<lambda>k. nat (- k)) (map key (country_stats e1 pvs))"
    by simp
  then show ?thesis
    by (simp add: key_def comp_def)
qed

text \<open>Without ties two engines agree on the groups as well.\<close>

lemma country_stats_no_ties:
  assumes "valid_group_order (group_order e1)" "valid_group_order (group_order e2)"
    and nt: "no_ties pvs"
  shows "country_stats e2 pvs = country_stats e1 pvs"
proof -
  define vs where "vs = map country (filter (\<lambda>p. country p \<noteq> []) pvs)"
  define mk where "mk = (\<lambda>c. (c, count_list vs c))"
  define key where "key = (\<lambda>g :: str \<times> nat. - int (snd g))"
  have cs: "country_stats e pvs = sort_key key (map mk (group_order e vs))" for e
    by (simp add: country_stats_def Let_def vs_def mk_def key_def)
  have v: "distinct (group_order e vs)" "set (group_order e vs) = set vs"
    if "valid_group_order (group_order e)" for e
    using that by (simp_all add: valid_group_order_def)
  have setcs: "set (country_stats e pvs) = mk ` set vs" if "valid_group_order (group_order e)" for e
    using v [OF that] by (simp add: cs)
  have inj: "inj_on key (mk ` set vs)"
  proof (rule inj_onI)
    fix g h assume g: "g \<in> mk ` set vs" and h: "h \<in> mk ` set vs" and k: "key g = key h"
    from g obtain p where p: "p \<in> set pvs" "country p \<noteq> []" "g = mk (country p)"
      by (auto simp: vs_def)
    from h obtain q where q: "q \<in> set pvs" "country q \<noteq> []" "h = mk (country q)"
      by (auto simp: vs_def)
    have "count_list vs (country p) = count_list vs (country q)"
      using k p q by (simp add: key_def mk_def)
    then have "length (filter (\<lambda>r. country r = country p) pvs) =
        length (filter (\<lambda>r. country r = country q) pvs)"
      using count_list_country [of "country p" pvs] count_list_country [of "country q" pvs] p q
      by (simp add: vs_def)
    with nt p q have "country p = country q"
      unfolding no_ties_def by blast
    with p q show "g = h" by simp
  qed
  have dist: "distinct (country_stats e pvs)" if "valid_group_order (group_order e)" for e
    using v [OF that] by (simp add: cs distinct_map inj_on_def mk_def)
  have "map key (country_stats e2 pvs) = map key (country_stats e1 pvs)"
  proof (rule sorted_distinct_set_unique)
    show "sorted (map key (country_stats e2 pvs))" "sorted (map key (country_stats e1 pvs))"
      by (simp_all add: cs)
    show "distinct (map key (country_stats e2 pvs))"
      using dist [OF assms(2)] inj setcs [OF assms(2)] by (simp add: distinct_map)
    show "distinct (map key (country_stats e1 pvs))"
      using dist [OF assms(1)] inj setcs [OF assms(1)] by (simp add: distinct_map)
    show "set (map key (country_stats e2 pvs)) = set (map key (country_stats e1 pvs))"
      using setcs [OF assms(1)] setcs [OF assms(2)] by simp
  qed
  moreover have "inj_on key (set (country_stats e2 pvs) \<union> set (country_stats e1 pvs))"
    using inj setcs [OF assms(1)] setcs [OF assms(2)] by simp
  ultimately show ?thesis
    by (simp add: inj_on_map_eq_map)
qed

lemma first_occurrence_order_valid: "valid_group_order first_occurrence_order"
  by (simp add: valid_group_order_def first_occurrence_order_def)

text \<open>
  C6 (as amended). A second run of \<open>update_daily_stats\<close> for the same date, under any
  clock and any engine, on the page views and contacts the first run left, stores a row
  with the date, the creation time, the totals, the unique visitors, the contact and
  device counts and the three top-country counts of the first run. The whole row is the
  first run's, \<open>updated_at\<close> apart, whenever the database returns the same three top
  groups in both runs, as it does when no two countries of the day have the same count;
  among countries of equal count nothing fixes which ones the second run names. Neither
  run changes the page views or the contacts.
\<close>

theorem update_daily_stats_rerun:
  assumes run1: "update_daily_stats e1 (Some dt) d = (s1, d1)"
    and run2: "update_daily_stats e2 (Some dt) d1 = (s2, d2)"
  shows "stats_date s2 = stats_date s1 \<and> stats_created_at s2 = stats_created_at s1 \<and>
     total_views s2 = total_views s1 \<and> unique_visitors s2 = unique_visitors s1 \<and>
     contact_submissions s2 = contact_submissions s1 \<and>
     desktop_views s2 = desktop_views s1 \<and> mobile_views s2 = mobile_views s1 \<and>
     tablet_views s2 = tablet_views s1 \<and>
     (valid_group_order (group_order e1) \<and> valid_group_order (group_order e2) \<longrightarrow>
        top_country_1_count s2 = top_country_1_count s1 \<and>
        top_country_2_count s2 = top_country_2_count s1 \<and>
        top_country_3_count s2 = top_country_3_count s1) \<and>
     (top_countries e2 3 (views_on dt (page_views d)) =
        top_countries e1 3 (views_on dt (page_views d)) \<longrightarrow>
        s2 = s1\<lparr>stats_updated_at := now e2\<rparr>) \<and>
     (valid_group_order (group_order e1) \<and> valid_group_order (group_order e2) \<and>
      no_ties (views_on dt (page_views d)) \<longrightarrow> s2 = s1\<lparr>stats_updated_at := now e2\<rparr>) \<and>
     statistics d2 dt = Some s2 \<and> page_views d2 = page_views d \<and> contacts d2 = contacts d"
proof -
  have s1: "s1 = fst (update_daily_stats e1 (Some dt) d)"
    and d1: "d1 = snd (update_daily_stats e1 (Some dt) d)"
    using run1 by simp_all
  have s2: "s2 = fst (update_daily_stats e2 (Some dt) (snd (update_daily_stats e1 (Some dt) d)))"
    and d2: "d2 = snd (update_daily_stats e2 (Some dt) (snd (update_daily_stats e1 (Some dt) d)))"
    using run2 d1 by simp_all
  have frame: "stats_date s2 = stats_date s1" "stats_created_at s2 = stats_created_at s1"
    "total_views s2 = total_views s1" "unique_visitors s2 = unique_visitors s1"
    "contact_submissions s2 = contact_submissions s1"
    "desktop_views s2 = desktop_views s1" "mobile_views s2 = mobile_views s1"
    "tablet_views s2 = tablet_views s1"
    unfolding s1 s2
    by (simp_all add: update_daily_stats_row update_daily_stats_store fold_set_top_country_frame
        fold_set_top_country_unique_visitors)
  have counts: "top_country_1_count s2 = top_country_1_count s1 \<and>
        top_country_2_count s2 = top_country_2_count s1 \<and>
        top_country_3_count s2 = top_country_3_count s1"
    if "valid_group_order (group_order e1)" "valid_group_order (group_order e2)"
  proof -
    have "map snd (top_countries e2 3 (views_on dt (page_views d))) =
        map snd (top_countries e1 3 (views_on dt (page_views d)))"
      using country_stats_counts [OF that, of "views_on dt (page_views d)"]
      by (simp add: top_countries_def take_map [symmetric])
    from rerun_counts [OF this] show ?thesis
      unfolding s1 s2 by simp
  qed
  have same: "s2 = s1\<lparr>stats_updated_at := now e2\<rparr>"
    if "top_countries e2 3 (views_on dt (page_views d)) =
        top_countries e1 3 (views_on dt (page_views d))"
    using rerun_same_groups [OF that] unfolding s1 s2 .
  have noties: "s2 = s1\<lparr>stats_updated_at := now e2\<rparr>"
    if "valid_group_order (group_order e1)" "valid_group_order (group_order e2)"
      "no_ties (views_on dt (page_views d))"
    using same country_stats_no_ties [OF that] by (simp add: top_countries_def)
  have store: "statistics d2 dt = Some s2" "page_views d2 = page_views d" "contacts d2 = contacts d"
    unfolding d2 s2 by (simp_all add: update_daily_stats_store)
  show ?thesis
    using frame counts same noties store by simp
qed

theorem update_daily_stats_rerun_witness:
  "fst (update_daily_stats (sample_env\<lparr>now := 300000\<rparr>) (Some 1)
          (snd (update_daily_stats sample_env (Some 1) tied_db))) =
     (fst (update_daily_stats sample_env (Some 1) tied_db))\<lparr>stats_updated_at := 300000\<rparr>
   \<and> total_views (fst (update_daily_stats sample_env (Some 1) tied_db)) = 2
   \<and> top_country_1 (fst (update_daily_stats sample_env (Some 1) tied_db)) = ascii ''BR''
   \<and> top_country_2 (fst (update_daily_stats sample_env (Some 1) tied_db)) = ascii ''US''
   \<and> top_country_1_count
        (fst (update_daily_stats arrival_env (Some 1)
               (snd (update_daily_stats sample_env (Some 1) tied_db)))) = 1"
proof -
  have v: "valid_group_order (group_order sample_env)" "valid_group_order (group_order arrival_env)"
    by (simp_all add: sample_env_def arrival_env_def key_order_valid first_occurrence_order_valid)
  have row: "total_views (fst (update_daily_stats sample_env (Some 1) tied_db)) = 2
      \<and> top_country_1 (fst (update_daily_stats sample_env (Some 1) tied_db)) = ascii ''BR''
      \<and> top_country_2 (fst (update_daily_stats sample_env (Some 1) tied_db)) = ascii ''US''
      \<and> top_country_1_count (fst (update_daily_stats sample_env (Some 1) tied_db)) = 1"
    by (simp add: update_daily_stats_def Let_def tied_db_def tied_views_def empty_db_def
        sample_view_def views_on_def date_of_def top_countries_def country_stats_def
        sample_env_def key_order_def set_top_country_def ascii_def)
  have same: "top_countries (sample_env\<lparr>now := 300000\<rparr>) 3 (views_on 1 (page_views tied_db)) =
      top_countries sample_env 3 (views_on 1 (page_views tied_db))"
    by (simp add: top_countries_def country_stats_def)
  from update_daily_stats_rerun
      [where ?e1.0 = sample_env and ?e2.0 = "sample_env\<lparr>now := 300000\<rparr>" and dt = 1 and d = tied_db,
       OF prod.collapse [symmetric] prod.collapse [symmetric]] same
  have a: "fst (update_daily_stats (sample_env\<lparr>now := 300000\<rparr>) (Some 1)
          (snd (update_daily_stats sample_env (Some 1) tied_db))) =
     (fst (update_daily_stats sample_env (Some 1) tied_db))\<lparr>stats_updated_at := 300000\<rparr>"
    by simp
  from update_daily_stats_rerun
      [where ?e1.0 = sample_env and ?e2.0 = arrival_env and dt = 1 and d = tied_db,
       OF prod.collapse [symmetric] prod.collapse [symmetric]] v row
  have b: "top_country_1_count
        (fst (update_daily_stats arrival_env (Some 1)
               (snd (update_daily_stats sample_env (Some 1) tied_db)))) = 1"
    by simp
  from a b row show ?thesis by simp
qed

text \<open>
  C6 as stated fails: with US and BR seen once each on day 1, a first run on an engine
  that emits tied groups in key order names BR first, and a second run, with no event
  in between, on an engine that emits them in order of arrival names US first.
\<close>

theorem update_daily_stats_tie_counterexample:
  "valid_group_order (group_order sample_env) \<and> valid_group_order (group_order arrival_env) \<and>
   top_country_1 (fst (update_daily_stats sample_env (Some 1) tied_db)) = ascii ''BR'' \<and>
   top_country_1 (fst (update_daily_stats arrival_env (Some 1)
                        (snd (update_daily_stats sample_env (Some 1) tied_db)))) = ascii ''US''"
  by (simp add: key_order_valid first_occurrence_order_valid arrival_env_def
      update_daily_stats_def Let_def tied_db_def tied_views_def empty_db_def
      sample_view_def views_on_def date_of_def top_countries_def country_stats_def
      sample_env_def key_order_def first_occurrence_order_def set_top_country_def ascii_def)

section \<open>Geolocation and visit tracking\<close>

lemma get_location_info_returns: "\<exists>loc. get_location_info e ip = Inr loc"
  by (simp add: get_location_info_def split: sum.split option.split)

lemma lookup_failed_no_location:
  "lookup_failed r \<Longrightarrow> location_try r = Inr None \<or> (\<exists>err. location_try r = Inl err)"
  by (cases r rule: lookup_failed.cases) (auto simp: location_try_def split: option.splits)

text \<open>
  Where the service gives no location (no response, a status other than 200, a body
  that is not a JSON object, a status field that is not \<open>success\<close>),
  \<open>get_location_info\<close> returns the location whose three fields are empty, and
  \<open>track_page_view\<close> hands the store a page view with empty country, city and region:
  the view is stored when the client address is not empty and the store accepts the row.
\<close>

lemma lookup_failed_empty_location:
  "lookup_failed (geo_lookup e (format_ip ip)) \<Longrightarrow> get_location_info e ip = Inr no_location"
  using lookup_failed_no_location [of "geo_lookup e (format_ip ip)"]
  by (auto simp: get_location_info_def)

lemma track_page_view_lookup_failed:
  assumes "lookup_failed (geo_lookup e (format_ip (get_client_ip req)))"
    and "ip_column e (get_client_ip req) = Inr a"
    and "insert_page_view e (page_views d)
           \<lparr>ip_address = a, user_agent = meta_get (HTTP_USER_AGENT req),
            referer = meta_get (HTTP_REFERER req), page_url = url,
            country = [], city = [], region = [],
            device_type = info_device_type (get_device_info e (meta_get (HTTP_USER_AGENT req))),
            browser = info_browser (get_device_info e (meta_get (HTTP_USER_AGENT req))),
            operating_system = info_operating_system (get_device_info e (meta_get (HTTP_USER_AGENT req))),
            timestamp = now e, session_id = meta_get (session_key req), time_on_page = 0\<rparr> = None"
  shows "\<exists>pv. track_page_view e req url d = Inr (pv, d\<lparr>page_views := page_views d @ [pv]\<rparr>) \<and>
          ip_address pv = a \<and> page_url pv = url \<and>
          country pv = [] \<and> city pv = [] \<and> region pv = []"
  using assms(2,3) lookup_failed_empty_location [OF assms(1)]
  by (simp add: track_page_view_def Let_def no_location_def char_column_def)

text \<open>An \<^verbatim>\<open>X-Forwarded-For\<close> header that starts with a comma gives an empty client
  address, which the store refuses, whatever the lookup answers.\<close>

lemma track_page_view_empty_address:
  assumes "HTTP_X_FORWARDED_FOR req = Some (COMMA # rest)"
  shows "track_page_view e req url d = Inl IntegrityError"
proof -
  have "get_client_ip req = Some []"
    using assms by (simp add: get_client_ip_def split: list.split)
  moreover obtain loc where "get_location_info e (Some []) = Inr loc"
    using get_location_info_returns by blast
  ultimately show ?thesis
    by (simp add: track_page_view_def Let_def ip_column_def split: sum.split)
qed

text \<open>
  C4 at a malformed payload: the service answers with status 200 and a \<open>success\<close>
  object whose country is \<^verbatim>\<open>null\<close>. \<open>get_location_info\<close> returns that \<^verbatim>\<open>None\<close> as the
  country instead of the empty string, the insert of the page view violates the NOT
  NULL constraint of the column, and \<open>track_page_view\<close> raises without storing a view.
\<close>

theorem track_page_view_null_country_raises:
  "get_location_info null_country_env (get_client_ip sample_request) =
     Inr \<lparr>info_country = JNull, info_city = JString (ascii ''Recife''),
          info_region = JString (ascii ''Pernambuco'')\<rparr> \<and>
   track_page_view null_country_env sample_request (ascii ''/'') empty_db = Inl IntegrityError"
proof -
  have loc: "get_location_info null_country_env (get_client_ip sample_request) =
     Inr \<lparr>info_country = JNull, info_city = JString (ascii ''Recife''),
          info_region = JString (ascii ''Pernambuco'')\<rparr>"
    by (simp add: get_location_info_def location_try_def null_country_env_def sample_env_def
        dict_get_def obj_lookup_def ascii_def)
  then show ?thesis
    by (simp add: track_page_view_def Let_def char_column_def split: sum.split)
qed

section \<open>Text\<close>

lemma strip_trimmed: "trimmed sp s (strip sp s)"
proof -
  define u where "u = dropWhile sp s"
  define t where "t = strip sp s"
  have t: "t = rev (dropWhile sp (rev u))"
    by (simp add: t_def strip_def u_def)
  have s: "s = takeWhile sp s @ u"
    by (simp add: u_def)
  have "u = rev (rev u)"
    by simp
  also have "\<dots> = rev (takeWhile sp (rev u) @ dropWhile sp (rev u))"
    by (simp only: takeWhile_dropWhile_id)
  also have "\<dots> = rev (dropWhile sp (rev u)) @ rev (takeWhile sp (rev u))"
    by (simp only: rev_append)
  finally have u: "u = t @ rev (takeWhile sp (rev u))"
    by (simp only: t)
  have pre: "\<forall>c \<in> set (takeWhile sp s). sp c"
    by (auto dest: set_takeWhileD)
  have suf: "\<forall>c \<in> set (rev (takeWhile sp (rev u))). sp c"
    by (auto dest: set_takeWhileD)
  have ends: "\<not> sp (hd t) \<and> \<not> sp (last t)" if ne: "t \<noteq> []"
  proof -
    from ne have d: "dropWhile sp (rev u) \<noteq> []"
      by (simp add: t)
    then have "\<not> sp (hd (dropWhile sp (rev u)))"
      by (rule hd_dropWhile)
    then have l: "\<not> sp (last t)"
      using d by (simp add: t last_rev)
    from ne u have "u \<noteq> []" by auto
    then have "\<not> sp (hd u)"
      unfolding u_def by (rule hd_dropWhile)
    moreover have "hd u = hd t"
      using ne u by (metis hd_append2)
    ultimately show ?thesis using l by simp
  qed
  have "s = takeWhile sp s @ t @ rev (takeWhile sp (rev u))"
    using s u by simp
  with pre suf ends show ?thesis
    unfolding trimmed_def t_def [symmetric] by blast
qed

lemma trimmed_unique:
  assumes "trimmed sp s t"
  shows "strip sp s = t"
proof -
  from assms obtain pre suf where s: "s = pre @ t @ suf"
    and pre: "\<forall>c \<in> set pre. sp c" and suf: "\<forall>c \<in> set suf. sp c"
    and ends: "t \<noteq> [] \<longrightarrow> \<not> sp (hd t) \<and> \<not> sp (last t)"
    unfolding trimmed_def by blast
  show ?thesis
  proof (cases "t = []")
    case True
    with s pre suf have "\<forall>c \<in> set s. sp c" by auto
    then have "dropWhile sp s = []" by (simp add: dropWhile_eq_Nil_conv)
    then have "strip sp s = []" unfolding strip_def by (simp only: rev.simps dropWhile.simps)
    with True show ?thesis by simp
  next
    case False
    then obtain x xs where t: "t = x # xs" by (cases t) auto
    with ends have x: "\<not> sp x" by simp
    have "dropWhile sp (pre @ t @ suf) = dropWhile sp (t @ suf)"
      by (rule dropWhile_append2) (use pre in auto)
    then have "dropWhile sp s = t @ suf"
      using x by (simp add: s t)
    moreover have "dropWhile sp (rev suf @ rev t) = rev t"
    proof -
      from False ends have "\<not> sp (hd (rev t))"
        by (simp add: hd_rev)
      moreover from False have "rev t \<noteq> []" by simp
      ultimately have "dropWhile sp (rev t) = rev t"
        by (cases "rev t") auto
      moreover have "dropWhile sp (rev suf @ rev t) = dropWhile sp (rev t)"
        by (rule dropWhile_append2) (use suf in auto)
      ultimately show ?thesis
        by simp
    qed
    ultimately show ?thesis
      by (simp add: strip_def)
  qed
qed

lemma split_on_not_Nil: "split_on sep s \<noteq> []"
  by (induction s) (auto split: list.split)

lemma split_on_piece: "sep \<notin> set p \<Longrightarrow> split_on sep p = [p]"
  by (induction p) auto

lemma split_on_append: "sep \<notin> set p \<Longrightarrow> split_on sep (p @ sep # r) = p # split_on sep r"
  by (induction p) auto

lemma join_concat:
  "pieces \<noteq> [] \<Longrightarrow>
   join [sep] pieces = concat (map (\<lambda>p. p @ [sep]) (butlast pieces)) @ last pieces"
  by (induction "[sep]" pieces rule: join.induct) simp_all

lemma separated_join:
  "separated sep s pieces =
     (pieces \<noteq> [] \<and> (\<forall>p \<in> set pieces. sep \<notin> set p) \<and> s = join [sep] pieces)"
  by (auto simp: separated_def join_concat)

lemma separated_split_on:
  assumes "separated sep s pieces"
  shows "split_on sep s = pieces"
proof -
  have "pieces \<noteq> [] \<Longrightarrow> \<forall>p \<in> set pieces. sep \<notin> set p \<Longrightarrow>
      split_on sep (join [sep] pieces) = pieces"
  proof (induction pieces)
    case Nil
    then show ?case by simp
  next
    case (Cons p ps)
    show ?case
    proof (cases ps)
      case Nil
      with Cons.prems show ?thesis by (simp add: split_on_piece)
    next
      case (Cons q qs)
      with Cons.prems Cons.IH show ?thesis by (simp add: split_on_append)
    qed
  qed
  with assms show ?thesis
    by (simp add: separated_join)
qed

lemma join_split_on: "join [sep] (split_on sep s) = s"
proof (induction s)
  case Nil
  then show ?case by simp
next
  case (Cons c cs)
  obtain w ws where w: "split_on sep cs = w # ws"
    using split_on_not_Nil [of sep cs] by (cases "split_on sep cs") auto
  with Cons show ?case by (cases ws) auto
qed

lemma split_on_no_sep: "p \<in> set (split_on sep s) \<Longrightarrow> sep \<notin> set p"
  by (induction s arbitrary: p) (auto split: if_splits list.splits)

lemma split_on_separated: "separated sep s (split_on sep s)"
  by (auto simp: separated_join split_on_not_Nil join_split_on dest: split_on_no_sep)

lemma trimmed_entries:
  "list_all2 (trimmed sp) entries cleaned \<Longrightarrow> map (strip sp) entries = cleaned"
  by (induction rule: list_all2_induct) (simp_all add: trimmed_unique)

lemma strip_entries: "list_all2 (trimmed sp) entries (map (strip sp) entries)"
  by (induction entries) (simp_all add: strip_trimmed)

lemma re_match_Plus:
  "re_match (Plus P # r) s =
     (\<exists>a t. s = a @ t \<and> a \<noteq> [] \<and> (\<forall>x \<in> set a. P x) \<and> re_match r t)"
proof (induction s)
  case Nil
  then show ?case by simp
next
  case (Cons x xs)
  show ?case
  proof
    assume "re_match (Plus P # r) (x # xs)"
    then have px: "P x" and rest: "re_match (Plus P # r) xs \<or> re_match r xs"
      by simp_all
    from rest show "\<exists>a t. x # xs = a @ t \<and> a \<noteq> [] \<and> (\<forall>x \<in> set a. P x) \<and> re_match r t"
    proof
      assume "re_match (Plus P # r) xs"
      with Cons obtain a t where "xs = a @ t" "\<forall>x \<in> set a. P x" "re_match r t"
        by blast
      with px have "x # xs = (x # a) @ t \<and> x # a \<noteq> [] \<and> (\<forall>y \<in> set (x # a). P y) \<and> re_match r t"
        by simp
      then show ?thesis by blast
    next
      assume "re_match r xs"
      with px have "x # xs = [x] @ xs \<and> [x] \<noteq> [] \<and> (\<forall>y \<in> set [x]. P y) \<and> re_match r xs"
        by simp
      then show ?thesis by blast
    qed
  next
    assume "\<exists>a t. x # xs = a @ t \<and> a \<noteq> [] \<and> (\<forall>x \<in> set a. P x) \<and> re_match r t"
    then obtain a t where a: "x # xs = a @ t" "a \<noteq> []" "\<forall>x \<in> set a. P x" "re_match r t"
      by blast
    then obtain a' where a': "a = x # a'" "xs = a' @ t"
      by (cases a) auto
    with a have px: "P x" by simp
    show "re_match (Plus P # r) (x # xs)"
    proof (cases "a' = []")
      case True
      with a a' px show ?thesis by simp
    next
      case False
      with a a' have "\<exists>a t. xs = a @ t \<and> a \<noteq> [] \<and> (\<forall>x \<in> set a. P x) \<and> re_match r t"
        by auto
      with Cons px show ?thesis by simp
    qed
  qed
qed

lemma re_match_Lit: "re_match (Lit c # r) s = (\<exists>t. s = c # t \<and> re_match r t)"
  by (cases s) auto

text \<open>The pattern of the source accepts exactly the strings of the e-mail shape.\<close>

lemma email_regex_shape: "re_match (email_regex sp) s = email_shape sp s"
proof
  assume "re_match (email_regex sp) s"
  then obtain a b c t where "s = a @ AT # b @ DOT # c @ t" "a \<noteq> []" "b \<noteq> []" "c \<noteq> []"
    "\<forall>x \<in> set a. not_space_at sp x" "\<forall>x \<in> set b. not_space_at sp x"
    "\<forall>x \<in> set c. not_space_at sp x" "t = [] \<or> t = [LF]"
    unfolding email_regex_def re_match_Plus re_match_Lit by auto
  then have "a \<noteq> [] \<and> b \<noteq> [] \<and> c \<noteq> [] \<and> (\<forall>x \<in> set (a @ b @ c). \<not> sp x \<and> x \<noteq> AT) \<and>
        (s = a @ [AT] @ b @ [DOT] @ c \<or> s = a @ [AT] @ b @ [DOT] @ c @ [LF])"
    by (auto simp: not_space_at_def)
  then show "email_shape sp s"
    unfolding email_shape_def by blast
next
  assume "email_shape sp s"
  then obtain a b c where abc: "a \<noteq> []" "b \<noteq> []" "c \<noteq> []"
    "\<forall>x \<in> set (a @ b @ c). \<not> sp x \<and> x \<noteq> AT"
    "s = a @ [AT] @ b @ [DOT] @ c \<or> s = a @ [AT] @ b @ [DOT] @ c @ [LF]"
    unfolding email_shape_def by blast
  define t where "t = (if s = a @ [AT] @ b @ [DOT] @ c then [] else [LF])"
  have s: "s = a @ AT # b @ DOT # c @ t" and t: "re_match [] t"
    using abc(5) by (auto simp: t_def)
  have ok: "\<forall>x \<in> set a. not_space_at sp x" "\<forall>x \<in> set b. not_space_at sp x"
    "\<forall>x \<in> set c. not_space_at sp x"
    using abc(4) by (auto simp: not_space_at_def)
  have plus: "re_match (Plus P # r) (w @ u)"
    if "w \<noteq> []" "\<forall>x \<in> set w. P x" "re_match r u" for P r w u
    unfolding re_match_Plus using that by blast
  have "re_match [Plus (not_space_at sp)] (c @ t)"
    using abc(3) ok(3) t by (rule plus)
  then have "re_match [Lit DOT, Plus (not_space_at sp)] (DOT # c @ t)"
    by simp
  with abc(2) ok(2)
  have "re_match [Plus (not_space_at sp), Lit DOT, Plus (not_space_at sp)] (b @ DOT # c @ t)"
    by (rule plus)
  then have "re_match [Lit AT, Plus (not_space_at sp), Lit DOT, Plus (not_space_at sp)]
      (AT # b @ DOT # c @ t)"
    by simp
  with abc(1) ok(1) have "re_match (email_regex sp) (a @ AT # b @ DOT # c @ t)"
    unfolding email_regex_def by (rule plus)
  then show "re_match (email_regex sp) s"
    using s by simp
qed

section \<open>Contact intake\<close>

lemma configured_get_settings:
  assumes "configured e d fs d1"
  shows "get_settings e d = Inr (fs, d1)"
proof (cases "find (\<lambda>r. pk r = Some 1) (settings_table d)")
  case None
  then have "\<not> list_ex (\<lambda>r. pk r = Some 1) (settings_table d)"
    by (simp add: find_None_iff list_ex_iff)
  with None assms show ?thesis
    by (simp add: configured_def get_settings_def save_def model_save_def new_settings_def Let_def)
next
  case (Some s)
  with assms show ?thesis
    by (simp add: configured_def get_settings_def)
qed

lemma get_settings_configured: "\<exists>fs d1. configured e d fs d1"
  by (cases "find (\<lambda>r. pk r = Some 1) (settings_table d)") (simp_all add: configured_def)

lemma configured_contacts: "configured e d fs d1 \<Longrightarrow> contacts d1 = contacts d"
  by (auto simp: configured_def split: option.splits)

lemma configured_mail:
  "configured (e\<lparr>admin_mail := a, auto_reply := r\<rparr>) d fs d1 = configured e d fs d1"
  by (simp add: configured_def split: option.split)

lemma field_value_post_get: "field_value req key = post_get req (ascii key)"
  by (simp add: field_value_def post_get_def)

lemma fields_strip:
  "fields e req (strip (isspace e) (post_get req (ascii ''name'')))
     (strip (isspace e) (post_get req (ascii ''whatsapp'')))
     (strip (isspace e) (post_get req (ascii ''email'')))
     (strip (isspace e) (post_get req (ascii ''project_description'')))"
  by (simp add: fields_def field_value_post_get strip_trimmed)

lemma allow_list_allowed_types: "allow_list e fs (allowed_types e fs)"
proof -
  have "separated COMMA (allowed_file_types fs) (split_on COMMA (allowed_file_types fs))"
    by (rule split_on_separated)
  moreover have "list_all2 (trimmed (isspace e)) (split_on COMMA (allowed_file_types fs))
      (map (strip (isspace e)) (split_on COMMA (allowed_file_types fs)))"
    by (rule strip_entries)
  moreover have "allowed_types e fs =
      map (lower e) (map (strip (isspace e)) (split_on COMMA (allowed_file_types fs)))"
    by (simp add: allowed_types_def comp_def)
  ultimately show ?thesis
    unfolding allow_list_def by blast
qed

lemma allow_list_unique:
  assumes "allow_list e fs allowed"
  shows "allowed_types e fs = allowed"
proof -
  from assms obtain entries cleaned where
    "separated COMMA (allowed_file_types fs) entries"
    "list_all2 (trimmed (isspace e)) entries cleaned" "allowed = map (lower e) cleaned"
    unfolding allow_list_def by blast
  then show ?thesis
    using separated_split_on [of COMMA "allowed_file_types fs" entries]
      trimmed_entries [of "isspace e" entries cleaned]
    by (auto simp: allowed_types_def)
qed

lemma extension_of_file_extension: "extension_of e filename (file_extension e filename)"
  unfolding extension_of_def file_extension_def using split_on_separated by blast

lemma extension_of_unique:
  "extension_of e filename ext \<Longrightarrow> file_extension e filename = ext"
  unfolding extension_of_def file_extension_def using separated_split_on by auto

lemma extension_without_dot:
  "DOT \<notin> set filename \<Longrightarrow> extension_of e filename (lower e filename)"
proof -
  assume "DOT \<notin> set filename"
  then have "separated DOT filename [filename]"
    by (simp add: separated_def)
  then have "separated DOT filename [filename] \<and> lower e filename = lower e (last [filename])"
    by simp
  then show ?thesis
    unfolding extension_of_def by blast
qed

text \<open>
  Every request on every store can be read in these words: there are settings in
  force, trimmed fields, an allow-list and an extension, and they are the ones the code
  computes.
\<close>

lemma submission_readable:
  "\<exists>fs d1 nm wa em pd allowed ext.
     configured e d fs d1 \<and> fields e req nm wa em pd \<and> allow_list e fs allowed \<and>
     extension_of e (attachment_name req) ext"
proof -
  obtain fs d1 where "configured e d fs d1"
    using get_settings_configured by blast
  then show ?thesis
    using fields_strip [of e req] allow_list_allowed_types [of e fs]
      extension_of_file_extension [of e "attachment_name req"]
    by blast
qed

lemma str_of_nat_not_Nil: "str_of_nat n \<noteq> []"
  by (subst str_of_nat.simps) simp

lemma messages_distinct:
  "distinct [msg_required, msg_email, msg_whatsapp, msg_too_large mb, msg_bad_type ts]"
  by (simp add: msg_required_def msg_email_def msg_whatsapp_def msg_too_large_def
      msg_bad_type_def ascii_def)

lemma messages_not_internal:
  "msg_too_large mb \<noteq> msg_internal" "msg_bad_type ts \<noteq> msg_internal"
  "msg_too_large mb \<noteq> msg_bad_type ts"
  by (simp_all add: msg_too_large_def msg_bad_type_def msg_internal_def ascii_def)

text \<open>The insert and what follows it.\<close>

lemma create_and_notify:
  "(case contact_create e nm wa em pd (FILES_attachment req) d1 of
      Inl err \<Rightarrow> (internal_error req, d1, [])
    | Inr (contact, d2) \<Rightarrow>
        (if is_ajax req then JsonResponse True msg_success
         else Redirect (ascii ''landing_page'') (MsgSuccess msg_success),
         d2,
         Persisted (the (contact_id contact)) #
           notifications e fs (the (contact_id contact)) contact)) =
   (case insert_contact e (contacts d1) (submitted_row e req nm wa em pd) of
      Inl err \<Rightarrow> (failure_response req, d1, [])
    | Inr k \<Rightarrow>
        (success_response req,
         d1\<lparr>contacts := contacts d1 @ [(submitted_row e req nm wa em pd)\<lparr>contact_id := Some k\<rparr>]\<rparr>,
         expected_effects fs k em (admin_mail e) (auto_reply e)))"
proof (cases "insert_contact e (contacts d1) (submitted_row e req nm wa em pd)")
  case (Inl err)
  then show ?thesis
    by (simp add: contact_create_def submitted_row_def Let_def internal_error_def
        failure_response_def is_ajax_def)
next
  case (Inr k)
  then show ?thesis
    by (simp add: contact_create_def submitted_row_def Let_def success_response_def
        is_ajax_def notifications_def expected_effects_def)
qed

text \<open>
  What the view does with a POST, in the words of the specification: the four checks in
  their order, each with its own answer, and then the insert, whose outcome decides
  between the answer of success with its notifications and the answer of the outer
  handler.
\<close>

lemma handle_contact_form_decides:
  assumes post: "request_method req = ascii ''POST''"
    and cfg: "configured e d fs d1"
    and flds: "fields e req nm wa em pd"
    and allowed: "allow_list e fs allowed"
    and ext: "extension_of e (attachment_name req) ext"
  shows "handle_contact_form e req d =
     (if nm = [] \<or> wa = [] \<or> em = [] \<or> pd = []
      then (JsonResponse False msg_required, d, [])
      else if \<not> email_shape (isspace e) em
      then (JsonResponse False msg_email, d, [])
      else if length (filter (isdecimal e) wa) \<notin> {10, 11}
      then (JsonResponse False msg_whatsapp, d, [])
      else if attachment_too_large fs req
      then (JsonResponse False (msg_too_large (max_file_size_mb fs)), d1, [])
      else if attachment_name req \<noteq> [] \<and> ext \<notin> set allowed
      then (JsonResponse False (msg_bad_type allowed), d1, [])
      else (case insert_contact e (contacts d) (submitted_row e req nm wa em pd) of
              Inl err \<Rightarrow> (failure_response req, d1, [])
            | Inr k \<Rightarrow>
                (success_response req,
                 d1\<lparr>contacts := contacts d @ [(submitted_row e req nm wa em pd)\<lparr>contact_id := Some k\<rparr>]\<rparr>,
                 expected_effects fs k em (admin_mail e) (auto_reply e))))"
proof -
  have s: "strip (isspace e) (post_get req (ascii ''name'')) = nm"
    "strip (isspace e) (post_get req (ascii ''whatsapp'')) = wa"
    "strip (isspace e) (post_get req (ascii ''email'')) = em"
    "strip (isspace e) (post_get req (ascii ''project_description'')) = pd"
    using flds by (simp_all add: fields_def field_value_post_get trimmed_unique)
  have gs: "get_settings e d = Inr (fs, d1)"
    using cfg by (rule configured_get_settings)
  have c: "contacts d1 = contacts d"
    using cfg by (rule configured_contacts)
  have at: "allowed_types e fs = allowed"
    using allowed by (rule allow_list_unique)
  have digits: "(length (filter (isdecimal e) wa) < 10 \<or> 11 < length (filter (isdecimal e) wa)) =
      (length (filter (isdecimal e) wa) \<notin> {10, 11})"
    by auto
  have pr: "present (FILES_attachment req) = (attachment_name req \<noteq> [])"
    by (simp add: present_def attachment_name_def split: option.split)
  have size: "upload_size (the (FILES_attachment req)) = attachment_size req"
    and fe: "file_extension e (upload_name (the (FILES_attachment req))) = ext"
    if "attachment_name req \<noteq> []"
    using that ext
    by (auto simp: attachment_name_def attachment_size_def extension_of_unique split: option.splits)
  have large: "(attachment_name req \<noteq> [] \<and>
        max_file_size_mb fs * 1024 * 1024 < upload_size (the (FILES_attachment req))) =
      attachment_too_large fs req"
    using size by (auto simp: attachment_too_large_def)
  have refused: "(attachment_name req \<noteq> [] \<and>
        file_extension e (upload_name (the (FILES_attachment req))) \<notin> set allowed) =
      (attachment_name req \<noteq> [] \<and> ext \<notin> set allowed)"
    using fe by auto
  show ?thesis
    unfolding handle_contact_form_def Let_def s gs at pr sum.case prod.case
      create_and_notify c large refused email_regex_shape
    using post
    by (simp add: digits del: insert_iff)
qed

text \<open>The surroundings of a request matter to the checks only through the tables.\<close>

lemma fields_mail: "fields (e\<lparr>admin_mail := a, auto_reply := r\<rparr>) req nm wa em pd = fields e req nm wa em pd"
  by (simp add: fields_def)

lemma allow_list_mail: "allow_list (e\<lparr>admin_mail := a, auto_reply := r\<rparr>) fs allowed = allow_list e fs allowed"
  by (simp add: allow_list_def)

lemma extension_of_mail: "extension_of (e\<lparr>admin_mail := a, auto_reply := r\<rparr>) n ext = extension_of e n ext"
  by (simp add: extension_of_def)

lemma submitted_row_mail:
  "submitted_row (e\<lparr>admin_mail := a, auto_reply := r\<rparr>) req nm wa em pd = submitted_row e req nm wa em pd"
  by (simp add: submitted_row_def)

lemma responses_differ:
  "success_response req \<noteq> JsonResponse False m" "failure_response req \<noteq> JsonResponse False (msg_too_large mb)"
  "failure_response req \<noteq> JsonResponse False (msg_bad_type ts)"
  "success_response req \<noteq> failure_response req"
  using messages_not_internal(1) [of mb] messages_not_internal(2) [of ts]
  by (auto simp: success_response_def failure_response_def dest: sym)

lemma strip_plain:
  assumes "w \<noteq> []" "\<not> sp (hd w)" "\<not> sp (last w)"
  shows "strip sp w = w"
proof -
  have "w = [] @ w @ [] \<and> (\<forall>c \<in> set []. sp c) \<and> (\<forall>c \<in> set []. sp c) \<and>
      (w \<noteq> [] \<longrightarrow> \<not> sp (hd w) \<and> \<not> sp (last w))"
    using assms by simp
  then have "trimmed sp w w"
    unfolding trimmed_def by blast
  then show ?thesis
    by (rule trimmed_unique)
qed

text \<open>With plain letters, the default setting is the list pdf, doc, docx, txt, and the
  extension of evil.exe is exe.\<close>

lemma plain_default_allow_list:
  assumes pl: "plain_letters e" and a: "allow_list e fs allowed"
    and cfg: "allowed_file_types fs = ascii ''pdf,doc,docx,txt''"
  shows "allowed = default_allowed"
proof -
  have sp: "split_on COMMA (allowed_file_types fs) = default_allowed"
    by (simp add: cfg default_allowed_def ascii_def)
  have w: "lower e (strip (isspace e) w) = w" if "w \<in> set default_allowed" for w
  proof -
    from that have l: "w \<noteq> []" "\<forall>c \<in> set w. 97 \<le> c \<and> c \<le> 122"
      by (auto simp: default_allowed_def ascii_def)
    then have "hd w \<in> set w" "last w \<in> set w" by simp_all
    with l pl have "\<not> isspace e (hd w)" "\<not> isspace e (last w)"
      unfolding plain_letters_def by blast+
    with l have "strip (isspace e) w = w" by (simp add: strip_plain)
    moreover from l pl have "lower e w = w"
      unfolding plain_letters_def by blast
    ultimately show ?thesis by simp
  qed
  have "allowed_types e fs = map (\<lambda>w. lower e (strip (isspace e) w)) default_allowed"
    by (simp add: allowed_types_def sp)
  also have "\<dots> = map (\<lambda>w. w) default_allowed"
    by (rule map_cong) (simp_all add: w)
  finally show ?thesis
    using allow_list_unique [OF a] by simp
qed

lemma plain_exe:
  assumes pl: "plain_letters e" and x: "extension_of e (ascii ''evil.exe'') ext"
  shows "ext = ascii ''exe''"
proof -
  have "\<forall>c \<in> set (ascii ''exe''). 97 \<le> c \<and> c \<le> 122"
    by (simp add: ascii_def)
  with pl have "lower e (ascii ''exe'') = ascii ''exe''"
    unfolding plain_letters_def by blast
  moreover have "last (split_on DOT (ascii ''evil.exe'')) = ascii ''exe''"
    by (simp add: ascii_def)
  ultimately show ?thesis
    using extension_of_unique [OF x] by (simp add: file_extension_def)
qed

text \<open>The concrete inputs: what the tables make of them.\<close>

lemma sample_tables:
  "isspace sample_env = sample_isspace" "isdecimal sample_env = sample_isdecimal"
  "lower sample_env = sample_lower" "now sample_env = 200000"
  "admin_mail sample_env = Raised" "auto_reply sample_env = Raised"
  "insert_contact sample_env rows row = Inr (Suc (length rows))"
  by (simp_all add: sample_env_def)

lemma refusing_tables:
  "isspace refusing_env = sample_isspace" "isdecimal refusing_env = sample_isdecimal"
  "lower refusing_env = sample_lower"
  "insert_contact refusing_env rows row = Inl DatabaseError"
  by (simp_all add: refusing_env_def sample_env_def)

lemma sample_plain_letters: "plain_letters sample_env"
proof -
  have "sample_lower w = w" if "\<forall>c \<in> set w. 97 \<le> c \<and> c \<le> 122" for w
    using that unfolding sample_lower_def by (induction w) auto
  then show ?thesis
    by (auto simp: plain_letters_def sample_tables sample_isspace_def)
qed

lemma form_request_fields:
  "post_get (form_request n w m p a) (ascii ''name'') = n"
  "post_get (form_request n w m p a) (ascii ''whatsapp'') = w"
  "post_get (form_request n w m p a) (ascii ''email'') = m"
  "post_get (form_request n w m p a) (ascii ''project_description'') = p"
  "request_method (form_request n w m p a) = ascii ''POST''"
  "FILES_attachment (form_request n w m p a) = a"
  "success_response (form_request n w m p a) = JsonResponse True msg_success"
  "failure_response (form_request n w m p a) = JsonResponse False msg_internal"
  by (simp_all add: form_request_def post_get_def success_response_def failure_response_def
      ascii_def)

lemma form_request_trimmed:
  assumes "isspace e = sample_isspace"
  shows "fields e (form_request n w m p a) (strip sample_isspace n) (strip sample_isspace w)
     (strip sample_isspace m) (strip sample_isspace p)"
  using fields_strip [of e "form_request n w m p a"]
  by (simp only: assms form_request_fields)

lemma sample_strip:
  "strip sample_isspace good_name = ascii ''Ana''"
  "strip sample_isspace good_number = good_number"
  "strip sample_isspace good_email = good_email"
  "strip sample_isspace good_text = good_text"
  "strip sample_isspace [0xA0, 0x20] = []"
  "strip sample_isspace (ascii ''abc'') = ascii ''abc''"
  "strip sample_isspace (ascii ''ana@example'') = ascii ''ana@example''"
  "strip sample_isspace (ascii ''12345'') = ascii ''12345''"
  "strip sample_isspace arabic_number = arabic_number"
  by (simp_all add: strip_def good_name_def good_number_def good_email_def good_text_def
      arabic_number_def ascii_def sample_isspace_def)

lemma sample_valid:
  "filled (ascii ''Ana'') good_number good_email good_text"
  "filled (ascii ''Ana'') arabic_number good_email good_text"
  "filled (ascii ''Ana'') good_number (ascii ''ana@example'') good_text"
  "filled (ascii ''Ana'') (ascii ''12345'') good_email good_text"
  "email_shape sample_isspace good_email"
  "\<not> email_shape sample_isspace (ascii ''ana@example'')"
  "length (filter sample_isdecimal good_number) = 11"
  "length (filter sample_isdecimal arabic_number) = 11"
  "length (filter sample_isdecimal (ascii ''12345'')) = 5"
  by (simp_all add: filled_def email_regex_shape [symmetric] email_regex_def not_space_at_def
      good_number_def good_email_def good_text_def arabic_number_def ascii_def
      sample_isspace_def sample_isdecimal_def)

lemma sample_configured:
  "configured e settings_db (new_settings (Some 1)) settings_db"
  "configured e custom_db custom_settings custom_db"
  by (simp_all add: configured_def settings_db_def custom_db_def empty_db_def
      custom_settings_def new_settings_def)

lemma sample_contacts: "contacts settings_db = []" "contacts custom_db = []"
  by (simp_all add: settings_db_def custom_db_def empty_db_def)

lemma sample_limits:
  "max_file_size_mb (new_settings (Some 1)) = 10" "max_file_size_mb custom_settings = 1"
  "email_notifications (new_settings (Some 1))" "auto_reply_enabled (new_settings (Some 1))"
  "notification_email (new_settings (Some 1)) = ascii ''admin@example.com''"
  by (simp_all add: new_settings_def custom_settings_def)

lemma sample_allow_lists:
  assumes "isspace e = sample_isspace" "lower e = sample_lower"
  shows "allow_list e (new_settings (Some 1)) default_allowed"
    and "allow_list e custom_settings custom_allowed"
proof -
  have "allowed_types e (new_settings (Some 1)) = default_allowed"
    by (simp add: allowed_types_def assms new_settings_def default_allowed_def strip_def
        sample_isspace_def sample_lower_def ascii_def)
  then show "allow_list e (new_settings (Some 1)) default_allowed"
    using allow_list_allowed_types [of e "new_settings (Some 1)"] by simp
  have "allowed_types e custom_settings = custom_allowed"
    by (simp add: allowed_types_def assms custom_settings_def new_settings_def custom_allowed_def
        relatorio_def strip_def sample_isspace_def sample_lower_def ascii_def)
  then show "allow_list e custom_settings custom_allowed"
    using allow_list_allowed_types [of e custom_settings] by simp
qed

lemma sample_extensions:
  assumes "lower e = sample_lower"
  shows "extension_of e [] []"
    and "extension_of e (ascii ''plan.pdf'') (ascii ''pdf'')"
    and "extension_of e (ascii ''evil.exe'') (ascii ''exe'')"
    and "extension_of e (ascii ''a.b.DOC'') (ascii ''doc'')"
    and "extension_of e (ascii ''all.zip'') (ascii ''zip'')"
proof -
  have x: "extension_of e n x" if "file_extension e n = x" for n x
    using that extension_of_file_extension [of e n] by simp
  show "extension_of e [] []"
    by (rule x) (simp add: file_extension_def assms sample_lower_def)
  show "extension_of e (ascii ''plan.pdf'') (ascii ''pdf'')"
    by (rule x) (simp add: file_extension_def assms sample_lower_def ascii_def)
  show "extension_of e (ascii ''evil.exe'') (ascii ''exe'')"
    by (rule x) (simp add: file_extension_def assms sample_lower_def ascii_def)
  show "extension_of e (ascii ''a.b.DOC'') (ascii ''doc'')"
    by (rule x) (simp add: file_extension_def assms sample_lower_def ascii_def)
  show "extension_of e (ascii ''all.zip'') (ascii ''zip'')"
    by (rule x) (simp add: file_extension_def assms sample_lower_def ascii_def)
qed

text \<open>
  C2. For a POST whose four text fields, trimmed of the white space of the runtime, are
  \<open>nm\<close>, \<open>wa\<close>, \<open>em\<close> and \<open>pd\<close>, under the settings in force: the view answers with
  the required-fields error when one of the four is empty; otherwise with the e-mail
  error when \<open>em\<close> has not the e-mail shape; otherwise with the WhatsApp error when
  \<open>wa\<close> has not ten or eleven decimal digits; otherwise with the size error when the
  named upload is larger than the configured maximum; otherwise with the type error
  when the extension of the named upload is not in the configured allow-list. So the
  first check that fails decides the answer. The five errors are pairwise distinct, no
  effect takes place, and the contacts in the store are those of before.
\<close>

theorem validation_order:
  assumes post: "request_method req = ascii ''POST''"
    and cfg: "configured e d fs d1"
    and flds: "fields e req nm wa em pd"
    and allowed: "allow_list e fs allowed"
    and ext: "extension_of e (attachment_name req) ext"
  shows "(\<not> filled nm wa em pd \<longrightarrow>
            handle_contact_form e req d = (JsonResponse False msg_required, d, [])) \<and>
         (filled nm wa em pd \<and> \<not> email_shape (isspace e) em \<longrightarrow>
            handle_contact_form e req d = (JsonResponse False msg_email, d, [])) \<and>
         (filled nm wa em pd \<and> email_shape (isspace e) em \<and> \<not> digits_ok e wa \<longrightarrow>
            handle_contact_form e req d = (JsonResponse False msg_whatsapp, d, [])) \<and>
         (filled nm wa em pd \<and> email_shape (isspace e) em \<and> digits_ok e wa \<and>
          attachment_too_large fs req \<longrightarrow>
            handle_contact_form e req d =
              (JsonResponse False (msg_too_large (max_file_size_mb fs)), d1, [])) \<and>
         (filled nm wa em pd \<and> email_shape (isspace e) em \<and> digits_ok e wa \<and>
          \<not> attachment_too_large fs req \<and> attachment_name req \<noteq> [] \<and> ext \<notin> set allowed \<longrightarrow>
            handle_contact_form e req d = (JsonResponse False (msg_bad_type allowed), d1, [])) \<and>
         contacts d1 = contacts d \<and>
         distinct [msg_required, msg_email, msg_whatsapp,
                   msg_too_large (max_file_size_mb fs), msg_bad_type allowed]"
proof -
  note h = handle_contact_form_decides [OF post cfg flds allowed ext]
  have 1: "\<not> filled nm wa em pd \<longrightarrow>
            handle_contact_form e req d = (JsonResponse False msg_required, d, [])"
    unfolding h by (simp add: filled_def)
  have 2: "filled nm wa em pd \<and> \<not> email_shape (isspace e) em \<longrightarrow>
            handle_contact_form e req d = (JsonResponse False msg_email, d, [])"
    unfolding h by (simp add: filled_def)
  have 3: "filled nm wa em pd \<and> email_shape (isspace e) em \<and> \<not> digits_ok e wa \<longrightarrow>
            handle_contact_form e req d = (JsonResponse False msg_whatsapp, d, [])"
    unfolding h by (simp add: filled_def digits_ok_def)
  have 4: "filled nm wa em pd \<and> email_shape (isspace e) em \<and> digits_ok e wa \<and>
          attachment_too_large fs req \<longrightarrow>
            handle_contact_form e req d =
              (JsonResponse False (msg_too_large (max_file_size_mb fs)), d1, [])"
    unfolding h by (simp add: filled_def digits_ok_def)
  have 5: "filled nm wa em pd \<and> email_shape (isspace e) em \<and> digits_ok e wa \<and>
          \<not> attachment_too_large fs req \<and> attachment_name req \<noteq> [] \<and> ext \<notin> set allowed \<longrightarrow>
            handle_contact_form e req d = (JsonResponse False (msg_bad_type allowed), d1, [])"
    unfolding h by (simp add: filled_def digits_ok_def)
  from 1 2 3 4 5 configured_contacts [OF cfg]
    messages_distinct [of "max_file_size_mb fs" allowed]
  show ?thesis by (simp only: simp_thms)
qed

theorem validation_order_witness:
  "handle_contact_form sample_env
     (form_request [0xA0, 0x20] good_number (ascii ''abc'') good_text None) settings_db =
     (JsonResponse False msg_required, settings_db, []) \<and>
   handle_contact_form sample_env
     (form_request good_name good_number (ascii ''ana@example'') good_text None) settings_db =
     (JsonResponse False msg_email, settings_db, []) \<and>
   handle_contact_form sample_env
     (form_request good_name (ascii ''12345'') good_email good_text None) settings_db =
     (JsonResponse False msg_whatsapp, settings_db, []) \<and>
   handle_contact_form sample_env
     (form_request good_name good_number good_email good_text (Some big_exe)) settings_db =
     (JsonResponse False (msg_too_large 10), settings_db, []) \<and>
   handle_contact_form sample_env
     (form_request good_name good_number good_email good_text (Some evil_exe)) custom_db =
     (JsonResponse False (msg_bad_type custom_allowed), custom_db, [])"
proof -
  note al = sample_allow_lists [OF sample_tables(1) sample_tables(3)]
  note ex = sample_extensions [OF sample_tables(3)]
  have f: "fields sample_env (form_request n w m p a) (strip sample_isspace n)
      (strip sample_isspace w) (strip sample_isspace m) (strip sample_isspace p)" for n w m p a
    by (rule form_request_trimmed) (rule sample_tables)
  have none: "attachment_name (form_request n w m p None) = []" for n w m p
    by (simp add: attachment_name_def form_request_fields)
  have exe: "attachment_name (form_request n w m p (Some big_exe)) = ascii ''evil.exe''"
    "attachment_name (form_request n w m p (Some evil_exe)) = ascii ''evil.exe''" for n w m p
    by (simp_all add: attachment_name_def form_request_fields big_exe_def evil_exe_def)
  have x0: "extension_of sample_env (attachment_name (form_request n w m p None)) []" for n w m p
    by (simp add: none ex(1))
  have x1: "extension_of sample_env (attachment_name (form_request n w m p (Some big_exe)))
      (ascii ''exe'')"
    "extension_of sample_env (attachment_name (form_request n w m p (Some evil_exe)))
      (ascii ''exe'')" for n w m p
    by (simp_all add: exe ex(3))
  have ne: "ascii ''evil.exe'' \<noteq> []"
    by (simp add: ascii_def)
  have sz: "attachment_size (form_request n w m p (Some big_exe)) = 11 * 1024 * 1024"
    "attachment_size (form_request n w m p (Some evil_exe)) = 2048" for n w m p
    by (simp_all add: attachment_size_def form_request_fields big_exe_def evil_exe_def)
  have size: "attachment_too_large (new_settings (Some 1))
      (form_request n w m p (Some big_exe))"
    "\<not> attachment_too_large custom_settings (form_request n w m p (Some evil_exe))" for n w m p
    by (simp_all add: attachment_too_large_def exe ne sz sample_limits)
  have refused: "ascii ''exe'' \<notin> set custom_allowed"
    by (simp add: custom_allowed_def relatorio_def ascii_def)
  have digits: "digits_ok sample_env good_number" "\<not> digits_ok sample_env (ascii ''12345'')"
    by (simp_all add: digits_ok_def sample_tables sample_valid)
  have a: "handle_contact_form sample_env
     (form_request [0xA0, 0x20] good_number (ascii ''abc'') good_text None) settings_db =
     (JsonResponse False msg_required, settings_db, [])"
    using validation_order [OF form_request_fields(5) sample_configured(1)
        f [of "[0xA0, 0x20]" good_number "ascii ''abc''" good_text None] al(1) x0]
    by (simp add: sample_strip filled_def)
  have b: "handle_contact_form sample_env
     (form_request good_name good_number (ascii ''ana@example'') good_text None) settings_db =
     (JsonResponse False msg_email, settings_db, [])"
    using validation_order [OF form_request_fields(5) sample_configured(1)
        f [of good_name good_number "ascii ''ana@example''" good_text None] al(1) x0]
    by (simp add: sample_strip sample_valid sample_tables)
  have c: "handle_contact_form sample_env
     (form_request good_name (ascii ''12345'') good_email good_text None) settings_db =
     (JsonResponse False msg_whatsapp, settings_db, [])"
    using validation_order [OF form_request_fields(5) sample_configured(1)
        f [of good_name "ascii ''12345''" good_email good_text None] al(1) x0]
    by (simp add: sample_strip sample_valid sample_tables digits)
  have d: "handle_contact_form sample_env
     (form_request good_name good_number good_email good_text (Some big_exe)) settings_db =
     (JsonResponse False (msg_too_large 10), settings_db, [])"
    using validation_order [OF form_request_fields(5) sample_configured(1)
        f [of good_name good_number good_email good_text "Some big_exe"] al(1) x1(1)]
    by (simp add: sample_strip sample_valid sample_tables digits size sample_limits)
  have e: "handle_contact_form sample_env
     (form_request good_name good_number good_email good_text (Some evil_exe)) custom_db =
     (JsonResponse False (msg_bad_type custom_allowed), custom_db, [])"
    using validation_order [OF form_request_fields(5) sample_configured(2)
        f [of good_name good_number good_email good_text "Some evil_exe"] al(2) x1(2)]
    by (simp add: sample_strip sample_valid sample_tables digits size exe ne refused)
  from a b c d e show ?thesis by (simp only: simp_thms)
qed

text \<open>
  C3 (as amended). For a POST that passes the four checks: when the store accepts the
  row, exactly one contact is appended, with the trimmed fields and the id the store
  assigned; the insert comes first, then one notification of the administrator if
  notifications are on and an address is set, then one reply to the applicant if
  replies are on; and the answer of success, the stored contact and the list of effects
  are the same whichever of the two sends fails. When the store refuses the row, the
  view answers with the internal error, no contact is stored and no notification is
  attempted.
\<close>

theorem valid_submission_persisted_then_notified:
  assumes post: "request_method req = ascii ''POST''"
    and cfg: "configured e d fs d1"
    and flds: "fields e req nm wa em pd"
    and allowed: "allow_list e fs allowed"
    and ext: "extension_of e (attachment_name req) ext"
    and valid: "filled nm wa em pd" "email_shape (isspace e) em" "digits_ok e wa"
    and att: "\<not> attachment_too_large fs req" "attachment_name req = [] \<or> ext \<in> set allowed"
  shows "(\<forall>k. insert_contact e (contacts d) (submitted_row e req nm wa em pd) = Inr k \<longrightarrow>
            (\<forall>a r. handle_contact_form (e\<lparr>admin_mail := a, auto_reply := r\<rparr>) req d =
               (success_response req,
                d1\<lparr>contacts := contacts d @
                      [(submitted_row e req nm wa em pd)\<lparr>contact_id := Some k\<rparr>]\<rparr>,
                expected_effects fs k em a r))) \<and>
         (\<forall>err. insert_contact e (contacts d) (submitted_row e req nm wa em pd) = Inl err \<longrightarrow>
            (\<forall>a r. handle_contact_form (e\<lparr>admin_mail := a, auto_reply := r\<rparr>) req d =
               (failure_response req, d1, [])))"
proof -
  have h: "handle_contact_form (e\<lparr>admin_mail := a, auto_reply := r\<rparr>) req d =
      (case insert_contact e (contacts d) (submitted_row e req nm wa em pd) of
         Inl err \<Rightarrow> (failure_response req, d1, [])
       | Inr k \<Rightarrow>
           (success_response req,
            d1\<lparr>contacts := contacts d @ [(submitted_row e req nm wa em pd)\<lparr>contact_id := Some k\<rparr>]\<rparr>,
            expected_effects fs k em a r))" for a r
  proof -
    let ?e = "e\<lparr>admin_mail := a, auto_reply := r\<rparr>"
    have "configured ?e d fs d1" "fields ?e req nm wa em pd" "allow_list ?e fs allowed"
      "extension_of ?e (attachment_name req) ext"
      using cfg flds allowed ext
      by (simp_all only: configured_mail fields_mail allow_list_mail extension_of_mail)
    from handle_contact_form_decides [OF post this] valid att show ?thesis
      by (auto simp: submitted_row_mail filled_def digits_ok_def split: sum.split)
  qed
  show ?thesis
    by (simp add: h)
qed

theorem valid_submission_persisted_then_notified_witness:
  "handle_contact_form sample_env sample_request settings_db =
     (JsonResponse True msg_success,
      settings_db\<lparr>contacts :=
        [\<lparr>contact_id = Some 1, name = ascii ''Ana'', whatsapp = good_number, email = good_email,
          project_description = good_text, attachment = None, created_at = 200000,
          is_read = False, contact_notes = []\<rparr>]\<rparr>,
      [Persisted 1, NotifyAdmin 1 (ascii ''admin@example.com'') Raised,
       NotifyApplicant 1 good_email Raised]) \<and>
   fst (handle_contact_form (sample_env\<lparr>admin_mail := Delivered, auto_reply := Delivered\<rparr>)
          sample_request settings_db) = JsonResponse True msg_success \<and>
   fst (snd (handle_contact_form sample_env
          (form_request good_name arabic_number good_email good_text (Some small_doc)) custom_db)) =
     custom_db\<lparr>contacts :=
        [\<lparr>contact_id = Some 1, name = ascii ''Ana'', whatsapp = arabic_number, email = good_email,
          project_description = good_text, attachment = Some small_doc, created_at = 200000,
          is_read = False, contact_notes = []\<rparr>]\<rparr>"
proof -
  note al = sample_allow_lists [OF sample_tables(1) sample_tables(3)]
  note ex = sample_extensions [OF sample_tables(3)]
  have f: "fields sample_env (form_request n w m p a) (strip sample_isspace n)
      (strip sample_isspace w) (strip sample_isspace m) (strip sample_isspace p)" for n w m p a
    by (rule form_request_trimmed) (rule sample_tables)
  have none: "attachment_name (form_request n w m p None) = []" for n w m p
    by (simp add: attachment_name_def form_request_fields)
  have doc: "attachment_name (form_request n w m p (Some small_doc)) = ascii ''a.b.DOC''"
    "attachment_size (form_request n w m p (Some small_doc)) = 2048" for n w m p
    by (simp_all add: attachment_name_def attachment_size_def form_request_fields small_doc_def)
  have x0: "extension_of sample_env (attachment_name (form_request n w m p None)) []" for n w m p
    by (simp add: none ex(1))
  have x1: "extension_of sample_env (attachment_name (form_request n w m p (Some small_doc)))
      (ascii ''doc'')" for n w m p
    by (simp add: doc ex(4))
  have ok: "\<not> attachment_too_large fs (form_request n w m p None)"
    "\<not> attachment_too_large custom_settings (form_request n w m p (Some small_doc))" for fs n w m p
    by (simp_all add: attachment_too_large_def none doc sample_limits)
  have member: "ascii ''doc'' \<in> set custom_allowed"
    by (simp add: custom_allowed_def relatorio_def)
  have digits: "digits_ok sample_env good_number" "digits_ok sample_env arabic_number"
    by (simp_all add: digits_ok_def sample_tables sample_valid)
  have shape: "email_shape (isspace sample_env) good_email"
    by (simp add: sample_tables sample_valid)
  have row: "submitted_row sample_env (form_request n w m p a) nm wa em pd =
      \<lparr>contact_id = None, name = nm, whatsapp = wa, email = em, project_description = pd,
       attachment = a, created_at = 200000, is_read = False, contact_notes = []\<rparr>" for n w m p a nm wa em pd
    by (simp add: submitted_row_def form_request_fields sample_tables)
  have env_id: "sample_env\<lparr>admin_mail := Raised, auto_reply := Raised\<rparr> = sample_env"
    by (simp add: sample_env_def)
  note t1 = valid_submission_persisted_then_notified
    [OF form_request_fields(5) sample_configured(1)
      f [of good_name good_number good_email good_text None, unfolded sample_strip] al(1) x0
      sample_valid(1) shape digits(1) ok(1) disjI1 [OF none],
     THEN conjunct1, rule_format, OF sample_tables(7)]
  have a: "handle_contact_form sample_env sample_request settings_db =
     (JsonResponse True msg_success,
      settings_db\<lparr>contacts :=
        [\<lparr>contact_id = Some 1, name = ascii ''Ana'', whatsapp = good_number, email = good_email,
          project_description = good_text, attachment = None, created_at = 200000,
          is_read = False, contact_notes = []\<rparr>]\<rparr>,
      [Persisted 1, NotifyAdmin 1 (ascii ''admin@example.com'') Raised,
       NotifyApplicant 1 good_email Raised])"
    using t1 [of Raised Raised]
    by (simp add: env_id sample_request_def row sample_contacts form_request_fields
        expected_effects_def sample_limits ascii_def)
  have b: "fst (handle_contact_form (sample_env\<lparr>admin_mail := Delivered, auto_reply := Delivered\<rparr>)
          sample_request settings_db) = JsonResponse True msg_success"
    using t1 [of Delivered Delivered]
    by (simp add: sample_request_def form_request_fields)
  note t2 = valid_submission_persisted_then_notified
    [OF form_request_fields(5) sample_configured(2)
      f [of good_name arabic_number good_email good_text "Some small_doc", unfolded sample_strip]
      al(2) x1 sample_valid(2) shape digits(2) ok(2) disjI2 [OF member],
     THEN conjunct1, rule_format, OF sample_tables(7)]
  have c: "fst (snd (handle_contact_form sample_env
          (form_request good_name arabic_number good_email good_text (Some small_doc)) custom_db)) =
     custom_db\<lparr>contacts :=
        [\<lparr>contact_id = Some 1, name = ascii ''Ana'', whatsapp = arabic_number, email = good_email,
          project_description = good_text, attachment = Some small_doc, created_at = 200000,
          is_read = False, contact_notes = []\<rparr>]\<rparr>"
    using t2 [of Raised Raised]
    by (simp add: env_id row sample_contacts)
  from a b c show ?thesis by (simp only: simp_thms)
qed

text \<open>
  C3 as stated fails: the submission above passes every check, but on a store
  that refuses the insert the view answers with the internal error and no contact is
  persisted.
\<close>

theorem valid_submission_store_refusal_counterexample:
  "fields refusing_env sample_request (ascii ''Ana'') good_number good_email good_text \<and>
   filled (ascii ''Ana'') good_number good_email good_text \<and>
   email_shape (isspace refusing_env) good_email \<and> digits_ok refusing_env good_number \<and>
   FILES_attachment sample_request = None \<and>
   handle_contact_form refusing_env sample_request settings_db =
     (JsonResponse False msg_internal, settings_db, [])"
proof -
  have f: "fields refusing_env sample_request (ascii ''Ana'') good_number good_email good_text"
    using form_request_trimmed [OF refusing_tables(1), of good_name good_number good_email good_text None]
    by (simp add: sample_strip sample_request_def)
  have v: "filled (ascii ''Ana'') good_number good_email good_text"
    "email_shape (isspace refusing_env) good_email" "digits_ok refusing_env good_number"
    by (simp_all add: sample_valid refusing_tables digits_ok_def)
  have s: "strip (isspace refusing_env) (post_get sample_request (ascii ''name'')) = ascii ''Ana''"
    "strip (isspace refusing_env) (post_get sample_request (ascii ''whatsapp'')) = good_number"
    "strip (isspace refusing_env) (post_get sample_request (ascii ''email'')) = good_email"
    "strip (isspace refusing_env) (post_get sample_request (ascii ''project_description'')) = good_text"
    using f by (simp_all add: fields_def field_value_post_get trimmed_unique)
  have ne: "ascii ''Ana'' \<noteq> []" "good_number \<noteq> []" "good_email \<noteq> []" "good_text \<noteq> []"
    using v(1) by (simp_all add: filled_def)
  have m: "re_match (email_regex (isspace refusing_env)) good_email"
    using v(2) by (simp add: email_regex_shape)
  have dg: "length (filter (isdecimal refusing_env) good_number) = 11"
    by (simp add: refusing_tables sample_valid)
  have gs: "get_settings refusing_env settings_db = Inr (new_settings (Some 1), settings_db)"
    by (rule configured_get_settings) (rule sample_configured)
  have "handle_contact_form refusing_env sample_request settings_db =
     (JsonResponse False msg_internal, settings_db, [])"
    unfolding handle_contact_form_def Let_def s gs
    by (simp add: ne m dg sample_request_def form_request_fields present_def
        contact_create_def refusing_tables internal_error_def is_ajax_def form_request_def
        email_regex_shape sample_valid)
  with f v show ?thesis
    by (simp add: sample_request_def form_request_fields)
qed

text \<open>
  C9. For a POST whose text fields pass their checks and that carries a named upload
  \<open>f\<close>: the view answers with the size error exactly when the size of \<open>f\<close> exceeds the
  configured number of megabytes times 1024 * 1024, and with the type error exactly
  when the size is within that limit and the extension of the name of \<open>f\<close> (the text
  after its last dot, lower-cased) is not among the entries of the configured
  comma-separated allow-list, each trimmed and lower-cased. So the size is checked
  first. With the limit of 10 a file of 11 * 1024 * 1024 bytes gets the size error, and,
  where the tables leave the letters a-z alone, the setting pdf,doc,docx,txt refuses
  evil.exe with the type error that lists pdf, doc, docx, txt.
\<close>

theorem attachment_size_then_type:
  assumes post: "request_method req = ascii ''POST''"
    and cfg: "configured e d fs d1"
    and flds: "fields e req nm wa em pd"
    and valid: "filled nm wa em pd" "email_shape (isspace e) em" "digits_ok e wa"
    and att: "FILES_attachment req = Some f" "upload_name f \<noteq> []"
    and allowed: "allow_list e fs allowed"
    and ext: "extension_of e (upload_name f) ext"
  shows "(fst (handle_contact_form e req d) =
            JsonResponse False (msg_too_large (max_file_size_mb fs)) \<longleftrightarrow>
          max_file_size_mb fs * 1024 * 1024 < upload_size f) \<and>
         (fst (handle_contact_form e req d) = JsonResponse False (msg_bad_type allowed) \<longleftrightarrow>
          upload_size f \<le> max_file_size_mb fs * 1024 * 1024 \<and> ext \<notin> set allowed) \<and>
         (max_file_size_mb fs = 10 \<and> upload_size f = 11 * 1024 * 1024 \<longrightarrow>
          fst (handle_contact_form e req d) = JsonResponse False (msg_too_large 10)) \<and>
         (plain_letters e \<and> allowed_file_types fs = ascii ''pdf,doc,docx,txt'' \<and>
          upload_name f = ascii ''evil.exe'' \<and>
          upload_size f \<le> max_file_size_mb fs * 1024 * 1024 \<longrightarrow>
          fst (handle_contact_form e req d) =
            JsonResponse False
              (msg_bad_type [ascii ''pdf'', ascii ''doc'', ascii ''docx'', ascii ''txt'']))"
proof -
  have an: "attachment_name req = upload_name f"
    using att by (simp add: attachment_name_def)
  have large: "attachment_too_large fs req = (max_file_size_mb fs * 1024 * 1024 < upload_size f)"
    using att by (simp add: attachment_too_large_def attachment_name_def attachment_size_def)
  note h = handle_contact_form_decides [OF post cfg flds allowed ext [folded an]]
  have fst_h: "fst (handle_contact_form e req d) =
      (if max_file_size_mb fs * 1024 * 1024 < upload_size f
       then JsonResponse False (msg_too_large (max_file_size_mb fs))
       else if ext \<notin> set allowed then JsonResponse False (msg_bad_type allowed)
       else (case insert_contact e (contacts d) (submitted_row e req nm wa em pd) of
               Inl err \<Rightarrow> failure_response req | Inr k \<Rightarrow> success_response req))"
    unfolding h large using valid att(2)
    by (simp add: filled_def digits_ok_def an split: sum.split)
  have other: "(case insert_contact e (contacts d) (submitted_row e req nm wa em pd) of
               Inl err \<Rightarrow> failure_response req | Inr k \<Rightarrow> success_response req) \<noteq>
             JsonResponse False (msg_too_large mb)"
    "(case insert_contact e (contacts d) (submitted_row e req nm wa em pd) of
               Inl err \<Rightarrow> failure_response req | Inr k \<Rightarrow> success_response req) \<noteq>
             JsonResponse False (msg_bad_type ts)" for mb ts
    by (simp_all add: responses_differ split: sum.split)
  have differ: "msg_too_large mb \<noteq> msg_bad_type ts" "msg_bad_type ts \<noteq> msg_too_large mb" for mb ts
    using messages_not_internal(3) [of mb ts] by auto
  have 1: "fst (handle_contact_form e req d) =
            JsonResponse False (msg_too_large (max_file_size_mb fs)) \<longleftrightarrow>
          max_file_size_mb fs * 1024 * 1024 < upload_size f"
    unfolding fst_h by (simp add: other differ)
  have 2: "fst (handle_contact_form e req d) = JsonResponse False (msg_bad_type allowed) \<longleftrightarrow>
          upload_size f \<le> max_file_size_mb fs * 1024 * 1024 \<and> ext \<notin> set allowed"
    unfolding fst_h by (auto simp: other differ)
  have 3: "max_file_size_mb fs = 10 \<and> upload_size f = 11 * 1024 * 1024 \<longrightarrow>
          fst (handle_contact_form e req d) = JsonResponse False (msg_too_large 10)"
    unfolding fst_h by simp
  have 4: "plain_letters e \<and> allowed_file_types fs = ascii ''pdf,doc,docx,txt'' \<and>
          upload_name f = ascii ''evil.exe'' \<and>
          upload_size f \<le> max_file_size_mb fs * 1024 * 1024 \<longrightarrow>
          fst (handle_contact_form e req d) =
            JsonResponse False
              (msg_bad_type [ascii ''pdf'', ascii ''doc'', ascii ''docx'', ascii ''txt''])"
  proof (intro impI, elim conjE)
    assume pl: "plain_letters e" and c: "allowed_file_types fs = ascii ''pdf,doc,docx,txt''"
      and n: "upload_name f = ascii ''evil.exe''"
      and sz: "upload_size f \<le> max_file_size_mb fs * 1024 * 1024"
    have a: "allowed = default_allowed"
      using pl allowed c by (rule plain_default_allow_list)
    have x: "ext = ascii ''exe''"
      using pl ext [unfolded n] by (rule plain_exe)
    have "ascii ''exe'' \<notin> set default_allowed"
      by (simp add: default_allowed_def ascii_def)
    with sz show "fst (handle_contact_form e req d) =
            JsonResponse False
              (msg_bad_type [ascii ''pdf'', ascii ''doc'', ascii ''docx'', ascii ''txt''])"
      unfolding fst_h a x by (simp add: default_allowed_def)
  qed
  from 1 2 3 4 show ?thesis by (simp only: simp_thms)
qed

theorem attachment_size_then_type_witness:
  "fst (handle_contact_form sample_env
          (form_request good_name good_number good_email good_text (Some big_pdf)) settings_db) =
     JsonResponse False (msg_too_large 10) \<and>
   fst (handle_contact_form sample_env
          (form_request good_name good_number good_email good_text (Some evil_exe)) settings_db) =
     JsonResponse False (msg_bad_type [ascii ''pdf'', ascii ''doc'', ascii ''docx'', ascii ''txt'']) \<and>
   fst (handle_contact_form sample_env
          (form_request good_name good_number good_email good_text (Some two_mb_zip)) custom_db) =
     JsonResponse False (msg_too_large 1) \<and>
   fst (handle_contact_form sample_env
          (form_request good_name good_number good_email good_text (Some small_doc)) custom_db) \<noteq>
     JsonResponse False (msg_bad_type custom_allowed) \<and>
   fst (handle_contact_form sample_env
          (form_request good_name good_number good_email good_text (Some two_mb_zip)) settings_db) =
     JsonResponse False (msg_bad_type default_allowed) \<and>
   fst (handle_contact_form sample_env
          (form_request good_name good_number good_email good_text (Some evil_exe)) custom_db) =
     JsonResponse False (msg_bad_type custom_allowed) \<and>
   msg_too_large 10 = ascii ''Arquivo muito grande. M'' @ [0xE1] @ ascii ''ximo permitido: 10MB'' \<and>
   msg_bad_type default_allowed =
     ascii ''Tipo de arquivo n'' @ [0xE3] @
     ascii ''o permitido. Tipos aceitos: pdf, doc, docx, txt''"
proof -
  note al = sample_allow_lists [OF sample_tables(1) sample_tables(3)]
  note ex = sample_extensions [OF sample_tables(3)]
  have texts: "msg_too_large 10 =
      ascii ''Arquivo muito grande. M'' @ [0xE1] @ ascii ''ximo permitido: 10MB''"
    "msg_bad_type default_allowed =
     ascii ''Tipo de arquivo n'' @ [0xE3] @
     ascii ''o permitido. Tipos aceitos: pdf, doc, docx, txt''"
    by (simp_all add: msg_too_large_def msg_bad_type_def default_allowed_def ascii_def)
  have f: "fields sample_env (form_request good_name good_number good_email good_text a)
      (ascii ''Ana'') good_number good_email good_text" for a
    using form_request_trimmed [OF sample_tables(1), of good_name good_number good_email good_text a]
    by (simp add: sample_strip)
  have v: "filled (ascii ''Ana'') good_number good_email good_text"
    "email_shape (isspace sample_env) good_email" "digits_ok sample_env good_number"
    by (simp_all add: sample_valid sample_tables digits_ok_def)
  have names: "upload_name big_pdf = ascii ''plan.pdf''" "upload_name evil_exe = ascii ''evil.exe''"
    "upload_name two_mb_zip = ascii ''all.zip''" "upload_name small_doc = ascii ''a.b.DOC''"
    by (simp_all add: big_pdf_def evil_exe_def two_mb_zip_def small_doc_def)
  have sizes: "upload_size big_pdf = 11 * 1024 * 1024" "upload_size evil_exe = 2048"
    "upload_size two_mb_zip = 2 * 1024 * 1024" "upload_size small_doc = 2048"
    by (simp_all add: big_pdf_def evil_exe_def two_mb_zip_def small_doc_def)
  have ne: "upload_name big_pdf \<noteq> []" "upload_name evil_exe \<noteq> []"
    "upload_name two_mb_zip \<noteq> []" "upload_name small_doc \<noteq> []"
    by (simp_all add: names ascii_def)
  have lists: "ascii ''doc'' \<in> set custom_allowed" "ascii ''doc'' \<in> set default_allowed"
    "ascii ''exe'' \<notin> set custom_allowed" "ascii ''exe'' \<notin> set default_allowed"
    "ascii ''zip'' \<notin> set default_allowed"
    by (simp_all add: custom_allowed_def default_allowed_def relatorio_def ascii_def)
  note t = attachment_size_then_type [OF form_request_fields(5) _ f v form_request_fields(6)]
  have a: "fst (handle_contact_form sample_env
          (form_request good_name good_number good_email good_text (Some big_pdf)) settings_db) =
     JsonResponse False (msg_too_large 10)"
    using t [OF sample_configured(1) ne(1) al(1) ex(2) [folded names]]
    by (simp add: sample_limits sizes)
  have b: "fst (handle_contact_form sample_env
          (form_request good_name good_number good_email good_text (Some evil_exe)) settings_db) =
     JsonResponse False (msg_bad_type [ascii ''pdf'', ascii ''doc'', ascii ''docx'', ascii ''txt''])"
    using t [OF sample_configured(1) ne(2) al(1) ex(3) [folded names],
        THEN conjunct2, THEN conjunct2, THEN conjunct2] sample_plain_letters
    by (simp add: sample_limits sizes names new_settings_def)
  have c: "fst (handle_contact_form sample_env
          (form_request good_name good_number good_email good_text (Some two_mb_zip)) custom_db) =
     JsonResponse False (msg_too_large 1)"
    using t [OF sample_configured(2) ne(3) al(2) ex(5) [folded names], THEN conjunct1]
    by (simp add: sample_limits sizes)
  have d: "fst (handle_contact_form sample_env
          (form_request good_name good_number good_email good_text (Some small_doc)) custom_db) \<noteq>
     JsonResponse False (msg_bad_type custom_allowed)"
    using t [OF sample_configured(2) ne(4) al(2) ex(4) [folded names], THEN conjunct2, THEN conjunct1]
    by (simp add: lists)
  have e: "fst (handle_contact_form sample_env
          (form_request good_name good_number good_email good_text (Some two_mb_zip)) settings_db) =
     JsonResponse False (msg_bad_type default_allowed)"
    using t [OF sample_configured(1) ne(3) al(1) ex(5) [folded names], THEN conjunct2, THEN conjunct1]
    by (simp add: lists sample_limits sizes)
  have g: "fst (handle_contact_form sample_env
          (form_request good_name good_number good_email good_text (Some evil_exe)) custom_db) =
     JsonResponse False (msg_bad_type custom_allowed)"
    using t [OF sample_configured(2) ne(2) al(2) ex(3) [folded names], THEN conjunct2, THEN conjunct1]
    by (simp add: lists sample_limits sizes)
  from a b c d e g texts show ?thesis by (simp only: simp_thms)
qed

text \<open>
  C10. For a POST whose text fields pass their checks and that carries a named upload
  \<open>f\<close> within the size limit whose name has no dot: the extension tested is the whole
  name, lower-cased. The view answers with the type error exactly when that string is
  not an entry of the configured allow-list (trimmed and lower-cased); it answers with
  success only when it is one; and when it is one and the store accepts the row, the
  submission is stored with the upload.
\<close>

theorem attachment_name_without_dot:
  assumes post: "request_method req = ascii ''POST''"
    and cfg: "configured e d fs d1"
    and flds: "fields e req nm wa em pd"
    and valid: "filled nm wa em pd" "email_shape (isspace e) em" "digits_ok e wa"
    and att: "FILES_attachment req = Some f" "upload_name f \<noteq> []"
    and no_dot: "DOT \<notin> set (upload_name f)"
    and size: "upload_size f \<le> max_file_size_mb fs * 1024 * 1024"
    and allowed: "allow_list e fs allowed"
  shows "(fst (handle_contact_form e req d) = JsonResponse False (msg_bad_type allowed) \<longleftrightarrow>
          lower e (upload_name f) \<notin> set allowed) \<and>
         (fst (handle_contact_form e req d) = success_response req \<longrightarrow>
          lower e (upload_name f) \<in> set allowed) \<and>
         (\<forall>k. lower e (upload_name f) \<in> set allowed \<and>
              insert_contact e (contacts d) (submitted_row e req nm wa em pd) = Inr k \<longrightarrow>
              handle_contact_form e req d =
                (success_response req,
                 d1\<lparr>contacts := contacts d @
                       [(submitted_row e req nm wa em pd)\<lparr>contact_id := Some k\<rparr>]\<rparr>,
                 expected_effects fs k em (admin_mail e) (auto_reply e)) \<and>
              attachment (submitted_row e req nm wa em pd) = Some f)"
proof -
  have an: "attachment_name req = upload_name f"
    using att by (simp add: attachment_name_def)
  have small: "\<not> attachment_too_large fs req"
    using att size by (simp add: attachment_too_large_def attachment_name_def attachment_size_def)
  have ext: "extension_of e (attachment_name req) (lower e (upload_name f))"
    unfolding an using no_dot by (rule extension_without_dot)
  note h = handle_contact_form_decides [OF post cfg flds allowed ext]
  have full: "handle_contact_form e req d =
      (if lower e (upload_name f) \<notin> set allowed
       then (JsonResponse False (msg_bad_type allowed), d1, [])
       else (case insert_contact e (contacts d) (submitted_row e req nm wa em pd) of
               Inl err \<Rightarrow> (failure_response req, d1, [])
             | Inr k \<Rightarrow>
                 (success_response req,
                  d1\<lparr>contacts := contacts d @
                        [(submitted_row e req nm wa em pd)\<lparr>contact_id := Some k\<rparr>]\<rparr>,
                  expected_effects fs k em (admin_mail e) (auto_reply e))))"
    unfolding h using valid att(2) small
    by (simp add: filled_def digits_ok_def an)
  have 1: "fst (handle_contact_form e req d) = JsonResponse False (msg_bad_type allowed) \<longleftrightarrow>
          lower e (upload_name f) \<notin> set allowed"
    unfolding full by (simp add: responses_differ split: sum.split)
  have 2: "fst (handle_contact_form e req d) = success_response req \<longrightarrow>
          lower e (upload_name f) \<in> set allowed"
    unfolding full using responses_differ(1) [of req "msg_bad_type allowed"]
    by (auto split: sum.split)
  have 3: "\<forall>k. lower e (upload_name f) \<in> set allowed \<and>
              insert_contact e (contacts d) (submitted_row e req nm wa em pd) = Inr k \<longrightarrow>
              handle_contact_form e req d =
                (success_response req,
                 d1\<lparr>contacts := contacts d @
                       [(submitted_row e req nm wa em pd)\<lparr>contact_id := Some k\<rparr>]\<rparr>,
                 expected_effects fs k em (admin_mail e) (auto_reply e)) \<and>
              attachment (submitted_row e req nm wa em pd) = Some f"
    unfolding full using att(1) by (simp add: submitted_row_def)
  from 1 2 3 show ?thesis by (simp only: simp_thms)
qed

theorem attachment_name_without_dot_witness:
  "fst (handle_contact_form sample_env
          (form_request good_name good_number good_email good_text (Some bare_txt)) settings_db) =
     JsonResponse True msg_success \<and>
   fst (handle_contact_form sample_env
          (form_request good_name good_number good_email good_text (Some bare_txt)) custom_db) =
     JsonResponse False (msg_bad_type custom_allowed) \<and>
   fst (handle_contact_form sample_env
          (form_request good_name good_number good_email good_text (Some bare_report)) custom_db) =
     JsonResponse True msg_success \<and>
   fst (handle_contact_form sample_env
          (form_request good_name good_number good_email good_text (Some bare_report)) settings_db) =
     JsonResponse False (msg_bad_type default_allowed)"
proof -
  note al = sample_allow_lists [OF sample_tables(1) sample_tables(3)]
  have f: "fields sample_env (form_request good_name good_number good_email good_text a)
      (ascii ''Ana'') good_number good_email good_text" for a
    using form_request_trimmed [OF sample_tables(1), of good_name good_number good_email good_text a]
    by (simp add: sample_strip)
  have v: "filled (ascii ''Ana'') good_number good_email good_text"
    "email_shape (isspace sample_env) good_email" "digits_ok sample_env good_number"
    by (simp_all add: sample_valid sample_tables digits_ok_def)
  have ne: "upload_name bare_txt \<noteq> []" "upload_name bare_report \<noteq> []"
    by (simp_all add: bare_txt_def bare_report_def ascii_def)
  have nd: "DOT \<notin> set (upload_name bare_txt)" "DOT \<notin> set (upload_name bare_report)"
    by (simp_all add: bare_txt_def bare_report_def ascii_def)
  have sz: "upload_size bare_txt \<le> max_file_size_mb (new_settings (Some 1)) * 1024 * 1024"
    "upload_size bare_txt \<le> max_file_size_mb custom_settings * 1024 * 1024"
    "upload_size bare_report \<le> max_file_size_mb (new_settings (Some 1)) * 1024 * 1024"
    "upload_size bare_report \<le> max_file_size_mb custom_settings * 1024 * 1024"
    by (simp_all add: bare_txt_def bare_report_def sample_limits)
  have low: "lower sample_env (upload_name bare_txt) = ascii ''txt''"
    "lower sample_env (upload_name bare_report) = relatorio"
    by (simp_all add: sample_tables sample_lower_def bare_txt_def bare_report_def relatorio_def
        ascii_def)
  have lists: "ascii ''txt'' \<in> set default_allowed" "ascii ''txt'' \<notin> set custom_allowed"
    "relatorio \<in> set custom_allowed" "relatorio \<notin> set default_allowed"
    by (simp_all add: custom_allowed_def default_allowed_def relatorio_def ascii_def)
  note t = attachment_name_without_dot [OF form_request_fields(5) _ f v form_request_fields(6)]
  have a: "fst (handle_contact_form sample_env
          (form_request good_name good_number good_email good_text (Some bare_txt)) settings_db) =
     JsonResponse True msg_success"
    using t [OF sample_configured(1) ne(1) nd(1) sz(1) al(1), THEN conjunct2, THEN conjunct2,
        rule_format, OF conjI, OF _ sample_tables(7), THEN conjunct1]
    by (simp add: low lists form_request_fields)
  have b: "fst (handle_contact_form sample_env
          (form_request good_name good_number good_email good_text (Some bare_txt)) custom_db) =
     JsonResponse False (msg_bad_type custom_allowed)"
    using t [OF sample_configured(2) ne(1) nd(1) sz(2) al(2), THEN conjunct1]
    by (simp add: low lists)
  have c: "fst (handle_contact_form sample_env
          (form_request good_name good_number good_email good_text (Some bare_report)) custom_db) =
     JsonResponse True msg_success"
    using t [OF sample_configured(2) ne(2) nd(2) sz(4) al(2), THEN conjunct2, THEN conjunct2,
        rule_format, OF conjI, OF _ sample_tables(7), THEN conjunct1]
    by (simp add: low lists form_request_fields)
  have d: "fst (handle_contact_form sample_env
          (form_request good_name good_number good_email good_text (Some bare_report)) settings_db) =
     JsonResponse False (msg_bad_type default_allowed)"
    using t [OF sample_configured(1) ne(2) nd(2) sz(3) al(1), THEN conjunct1]
    by (simp add: low lists)
  from a b c d show ?thesis by (simp only: simp_thms)
qed

end
